theory Spec2Isabelle
  imports Main "HOL-Library.Word"
begin

unbundle bit_operations_syntax

section \<open>xin: the X11 forwarded input receiver (xin.c)\<close>

subsection \<open>C types and X11 constants\<close>

text \<open>
  \<open>int\<close> and \<open>unsigned int\<close> are 32-bit words: \<open>-\<close> wraps around, the comparisons of
  \<open>int\<close> values are the signed ones (\<open><s\<close>, \<open>\<le>s\<close>). A \<open>KeyCode\<close> is an
  \<open>unsigned char\<close>, a \<open>Window\<close> an XID.
\<close>

type_synonym c_int = "32 word"
type_synonym c_uint = "32 word"
type_synonym keycode = "8 word"
type_synonym window = nat

definition None_window :: window where
  "None_window = 0"

definition KeyPress :: nat where
  "KeyPress = 2"

definition KeyRelease :: nat where
  "KeyRelease = 3"

definition MappingNotify :: nat where
  "MappingNotify = 34"

definition KeyPressMask :: c_uint where
  "KeyPressMask = 1"

definition KeyReleaseMask :: c_uint where
  "KeyReleaseMask = 2"

definition MappingKeyboard :: c_int where
  "MappingKeyboard = 1"

definition CurrentTime :: nat where
  "CurrentTime = 0"

datatype inject_method = INJECT_METHOD_XTEST | INJECT_METHOD_SENDEVENT

text \<open>
  An event as the program reads it out of the \<open>XEvent\<close> union: its type, and the
  integer found where \<open>xmapping.request\<close> lies.
\<close>

record xevent =
  ev_type :: nat
  ev_request :: c_int

text \<open>The fields of the \<open>XKeyEvent\<close> that \<open>xkey_sendevent\<close> fills in (the rest stay 0).\<close>

record xkey_event =
  ke_type :: nat
  ke_window :: window
  ke_subwindow :: window
  ke_state :: c_uint
  ke_keycode :: c_uint
  ke_time :: nat

subsection \<open>What the program does to the outside: the trace\<close>

datatype action =
    Warnx string
  | Err string
  | XTestFakeKeyEvent c_uint bool
  | XTestFakeButtonEvent c_uint bool
  | XTestFakeMotionEvent c_int c_int
  | XSendEvent window bool c_uint xkey_event
  | XFlush
  | XGrabKey c_int window
  | XSync
  | XRefreshKeyboardMapping
  | System string

text \<open>
  The display connection and the environment, as far as the program asks them anything.
  The keyboard tables are indexed by the number of \<open>XRefreshKeyboardMapping\<close> calls made
  so far, since a refresh may change every later lookup. \<open>XGetInputFocus\<close> is \<open>None\<close>
  when the call returns \<open>False\<close>. \<open>XCheckMaskEvent\<close> tells whether a mask selects an
  event (Xlib's table of event masks is not part of the program). \<open>system_call\<close> gives the
  return value of \<open>system(3)\<close> and the events that reach the queue while it runs.
\<close>

record display =
  XKeysymToKeycode :: "nat \<Rightarrow> c_int \<Rightarrow> keycode"
  XkbKeysymToModifiers :: "nat \<Rightarrow> c_int \<Rightarrow> c_uint"
  XStringToKeysym :: "string \<Rightarrow> c_int"
  XGetInputFocus :: "window option"
  RootWindow :: window
  XQueryPointer :: "window \<times> c_int \<times> c_int"
  DisplayWidth :: c_int
  DisplayHeight :: c_int
  XCheckMaskEvent :: "c_uint \<Rightarrow> xevent \<Rightarrow> bool"
  system_call :: "string \<Rightarrow> c_int \<times> xevent list"

text \<open>
  The program's own state: the trace, the two function-level statics (\<open>modifiers\<close> of
  \<open>xkey_sendevent\<close>, \<open>xb\<close> of \<open>xmotion\<close>, both zero at start), the event queue of the
  connection and the count of keyboard-mapping refreshes.
\<close>

record world =
  trace :: "action list"
  modifiers :: c_int
  xb_root :: window
  xb_x_root :: c_int
  xb_y_root :: c_int
  queue :: "xevent list"
  kbd_gen :: nat

definition emit :: "action \<Rightarrow> world \<Rightarrow> world" where
  "emit a w = w\<lparr>trace := trace w @ [a]\<rparr>"

definition warnx :: "string \<Rightarrow> world \<Rightarrow> world" where
  "warnx msg w = emit (Warnx msg) w"

text \<open>
  A handler returns (\<open>Continue\<close>), ends the process through \<open>err(1, ...)\<close> (\<open>Fatal\<close>), or
  waits in \<open>XNextEvent\<close> for an event that never comes (\<open>Blocked\<close>).
\<close>

datatype outcome = Continue world | Fatal world | Blocked world

fun world_of :: "outcome \<Rightarrow> world" where
  "world_of (Continue w) = w"
| "world_of (Fatal w) = w"
| "world_of (Blocked w) = w"

subsection \<open>xkey, xkey\_sendevent, xbutton, xmotion\<close>

definition xkey :: "display \<Rightarrow> char \<Rightarrow> c_int \<Rightarrow> c_int \<Rightarrow> world \<Rightarrow> world" where
  "xkey dpy type state keycode w =
     (let is_press = (type = CHR ''k'');
          keycode1 = (if keycode = 0 then ucast (XKeysymToKeycode dpy (kbd_gen w) state)
                      else keycode)
      in if keycode1 = 0 then warnx ''couldn't find keycode for a keysym'' w
         else emit XFlush (emit (XTestFakeKeyEvent keycode1 is_press) w))"

definition xkey_sendevent :: "display \<Rightarrow> char \<Rightarrow> c_int \<Rightarrow> c_int \<Rightarrow> world \<Rightarrow> world" where
  "xkey_sendevent dpy type state keycode w =
     (let w1 = (case XGetInputFocus dpy of
                  None \<Rightarrow> warnx ''no input focus; sending events to root window'' w
                | Some f \<Rightarrow> w);
          focus = (case XGetInputFocus dpy of None \<Rightarrow> RootWindow dpy | Some f \<Rightarrow> f);
          is_press = (type = CHR ''k'');
          m = (if is_press
               then modifiers w1 OR XkbKeysymToModifiers dpy (kbd_gen w1) state
               else modifiers w1 AND NOT (XkbKeysymToModifiers dpy (kbd_gen w1) state));
          e = \<lparr>ke_type = (if is_press then KeyPress else KeyRelease),
               ke_window = focus, ke_subwindow = focus, ke_state = m,
               ke_keycode = ucast (XKeysymToKeycode dpy (kbd_gen w1) state),
               ke_time = CurrentTime\<rparr>
      in emit XFlush
           (emit (XSendEvent focus False (if is_press then KeyPressMask else KeyReleaseMask) e)
              (w1\<lparr>modifiers := m\<rparr>)))"

definition xbutton :: "display \<Rightarrow> char \<Rightarrow> c_int \<Rightarrow> c_int \<Rightarrow> world \<Rightarrow> world" where
  "xbutton dpy type state button w =
     (let is_press = (type = CHR ''b'')
      in emit XFlush (emit (XTestFakeButtonEvent button is_press) w))"

text \<open>
  \<open>xmotion\<close>: the pointer is queried while \<open>xb.root\<close> is still \<open>None\<close>; the four clamping
  tests come in the order of the source.
\<close>

definition xmotion :: "display \<Rightarrow> c_int \<Rightarrow> c_int \<Rightarrow> world \<Rightarrow> world" where
  "xmotion dpy x y w =
     (let (root, x0, y0) = (if xb_root w = None_window then XQueryPointer dpy
                            else (xb_root w, xb_x_root w, xb_y_root w));
          maxw = DisplayWidth dpy;
          maxh = DisplayHeight dpy;
          x1 = x0 - x;
          y1 = y0 - y;
          x2 = (if x1 <s 0 then 0 else x1);
          y2 = (if y1 <s 0 then 0 else y1);
          x3 = (if maxw \<le>s x2 then maxw else x2);
          y3 = (if maxh \<le>s y2 then maxh else y2)
      in emit XFlush
           (emit (XTestFakeMotionEvent x3 y3)
              (w\<lparr>xb_root := root, xb_x_root := x3, xb_y_root := y3\<rparr>)))"

subsection \<open>xkblayout and update\_mapping\<close>

definition isalpha :: "char \<Rightarrow> bool" where
  "isalpha c = (let n = (of_char c :: nat) in (65 \<le> n \<and> n \<le> 90) \<or> (97 \<le> n \<and> n \<le> 122))"

text \<open>The validation loop of \<open>xkblayout\<close>: it stops at the first character that is no letter.\<close>

fun all_isalpha :: "string \<Rightarrow> bool" where
  "all_isalpha [] = True"
| "all_isalpha (p # ps) = (if isalpha p then all_isalpha ps else False)"

definition update_mapping :: "xevent \<Rightarrow> world \<Rightarrow> world" where
  "update_mapping e w =
     (if ev_request e = MappingKeyboard
      then (emit XRefreshKeyboardMapping w)\<lparr>kbd_gen := Suc (kbd_gen w)\<rparr>
      else w)"

text \<open>
  \<open>XCheckMaskEvent\<close> on the queue: the first event the mask selects is taken out.
\<close>

fun check_mask_event :: "(xevent \<Rightarrow> bool) \<Rightarrow> xevent list \<Rightarrow> (xevent \<times> xevent list) option" where
  "check_mask_event sel [] = None"
| "check_mask_event sel (e # q) =
     (if sel e then Some (e, q)
      else (case check_mask_event sel q of
              None \<Rightarrow> None
            | Some (e', q') \<Rightarrow> Some (e', e # q')))"

lemma check_mask_event_length:
  "check_mask_event sel q = Some (e, q') \<Longrightarrow> length q' < length q"
  by (induction q arbitrary: e q') (auto split: if_splits option.splits)

lemma queue_update_mapping [simp]: "queue (update_mapping e w) = queue w"
  by (simp add: update_mapping_def emit_def)

text \<open>
  \<open>while (XCheckMaskEvent(dpy, MappingNotify, &e) == True) update_mapping(dpy, &e);\<close>
  The source passes the event type \<open>MappingNotify\<close> where Xlib expects a mask.
\<close>

function drain_mapping :: "display \<Rightarrow> world \<Rightarrow> world" where
  "drain_mapping dpy w =
     (case check_mask_event (XCheckMaskEvent dpy (of_nat MappingNotify)) (queue w) of
        None \<Rightarrow> w
      | Some (e, q) \<Rightarrow> drain_mapping dpy (update_mapping e (w\<lparr>queue := q\<rparr>)))"
  by pat_completeness auto
termination
  by (relation "measure (\<lambda>(dpy, w). length (queue w))")
     (auto dest: check_mask_event_length)

declare drain_mapping.simps [simp del]

text \<open>
  \<open>do { XNextEvent(dpy, &e); ... } while (e.type != MappingNotify);\<close> over the events
  still to come: with none left, \<open>XNextEvent\<close> never returns.
\<close>

fun await_mapping :: "xevent list \<Rightarrow> world \<Rightarrow> outcome" where
  "await_mapping [] w = Blocked (w\<lparr>queue := []\<rparr>)"
| "await_mapping (e # q) w =
     (if ev_type e = MappingNotify then Continue (update_mapping e (w\<lparr>queue := q\<rparr>))
      else await_mapping q w)"

definition xkblayout :: "display \<Rightarrow> string \<Rightarrow> world \<Rightarrow> outcome" where
  "xkblayout dpy layout w =
     (if \<not> all_isalpha layout
      then Continue (warnx ''layout name cannot contain special characters'' w)
      else if 128 \<le> length (''setxkbmap '' @ layout)
      then Continue (warnx ''layout name too long'' w)
      else
        (let s = ''setxkbmap '' @ layout;
             w1 = emit (XGrabKey
                          (ucast (XKeysymToKeycode dpy (kbd_gen w) (XStringToKeysym dpy ''Super_L'')))
                          (RootWindow dpy)) w;
             w2 = emit XSync w1;
             w3 = drain_mapping dpy w2;
             (rc, evs) = system_call dpy s;
             w4 = emit (System s) w3
         in if rc = - 1 then Fatal (emit (Err ''system'') w4)
            else (case await_mapping (queue w4 @ evs) w4 of
                    Continue w5 \<Rightarrow> Continue (drain_mapping dpy w5)
                  | Fatal w5 \<Rightarrow> Fatal w5
                  | Blocked w5 \<Rightarrow> Blocked w5)))"

subsection \<open>sscanf with the two formats of main\<close>

definition isspace :: "char \<Rightarrow> bool" where
  "isspace c = (c = CHR '' '' \<or> (9 \<le> (of_char c :: nat) \<and> (of_char c :: nat) \<le> 13))"

definition isdigit :: "char \<Rightarrow> bool" where
  "isdigit c = (48 \<le> (of_char c :: nat) \<and> (of_char c :: nat) \<le> 57)"

fun decimal :: "int \<Rightarrow> string \<Rightarrow> int" where
  "decimal acc [] = acc"
| "decimal acc (d # ds) = decimal (10 * acc + (int (of_char d) - 48)) ds"

text \<open>
  What \<open>%d\<close> stores for a decimal value: the C library converts as \<open>strtol\<close> does
  (saturating at the 64-bit \<open>long\<close>) and stores the low 32 bits.
\<close>

definition store_int :: "int \<Rightarrow> c_int" where
  "store_int v = word_of_int (max (- (2 ^ 63)) (min (2 ^ 63 - 1) v))"

text \<open>
  The directive \<open>%d\<close>: white space is skipped, then an optional sign and at least one
  digit are read. \<open>None\<close> is a matching or an input failure.
\<close>

definition scan_d :: "string \<Rightarrow> (c_int \<times> string) option" where
  "scan_d s =
     (let s1 = dropWhile isspace s;
          neg = (case s1 of [] \<Rightarrow> False | c # r \<Rightarrow> c = CHR ''-'');
          s2 = (case s1 of [] \<Rightarrow> s1
                | c # r \<Rightarrow> if c = CHR ''-'' \<or> c = CHR ''+'' then r else s1);
          ds = takeWhile isdigit s2
      in if ds = [] then None
         else Some (store_int (if neg then - decimal 0 ds else decimal 0 ds),
                    dropWhile isdigit s2))"

text \<open>
  \<open>sscanf(buf, "%c %d", &c, &v1) == 2\<close> and \<open>sscanf(buf, "%c %d %d", &c, &v1, &v2) == 3\<close>:
  \<open>Some\<close> of the values stored when the call returns 2 (respectively 3), \<open>None\<close> for
  every other return value, the only thing main looks at then. \<open>%c\<close> takes one character
  whatever it is; a blank in the format skips white space, if any.
\<close>

definition sscanf_c_d :: "string \<Rightarrow> (char \<times> c_int) option" where
  "sscanf_c_d buf =
     (case buf of
        [] \<Rightarrow> None
      | c # r \<Rightarrow>
          (case scan_d (dropWhile isspace r) of
             None \<Rightarrow> None
           | Some (v1, r1) \<Rightarrow> Some (c, v1)))"

definition sscanf_c_d_d :: "string \<Rightarrow> (char \<times> c_int \<times> c_int) option" where
  "sscanf_c_d_d buf =
     (case buf of
        [] \<Rightarrow> None
      | c # r \<Rightarrow>
          (case scan_d (dropWhile isspace r) of
             None \<Rightarrow> None
           | Some (v1, r1) \<Rightarrow>
               (case scan_d (dropWhile isspace r1) of
                  None \<Rightarrow> None
                | Some (v2, r2) \<Rightarrow> Some (c, v1, v2))))"

subsection \<open>main: one line\<close>

text \<open>
  Every branch of the \<open>if\<close> chain in the loop of main is one call. \<open>select_call\<close> is the
  chain, on the buffer cut at its line end (\<open>buf[0] == 'l' && n > 2\<close> first, then the
  two-field \<open>sscanf\<close> with its test of \<open>c\<close>); \<open>run_call\<close> makes the call.
\<close>

datatype call =
    Call_xkblayout string
  | Call_xkey_sendevent char c_int c_int
  | Call_xkey char c_int c_int
  | Call_xmotion c_int c_int
  | Call_xbutton char c_int c_int
  | Call_warnx string

text \<open>
  The end of the chain (the second \<open>else if\<close> and the \<open>else\<close> with its \<open>switch\<close>), tried
  when the line is neither a layout line nor a two-field key line.
\<close>

definition select_call_3 :: "string \<Rightarrow> call" where
  "select_call_3 buf =
     (case sscanf_c_d_d buf of
        None \<Rightarrow> Call_warnx ''parse error; invalid or incomplete format''
      | Some (c, v1, v2) \<Rightarrow>
          if c = CHR ''m'' then Call_xmotion v1 v2
          else if c = CHR ''b'' \<or> c = CHR ''B'' then Call_xbutton c v1 v2
          else if c = CHR ''k'' \<or> c = CHR ''K'' then Call_xkey c v1 v2
          else Call_warnx ''parse error; unknown control'')"

definition select_call :: "inject_method \<Rightarrow> string \<Rightarrow> call" where
  "select_call method buf =
     (if (case buf of [] \<Rightarrow> False | b0 # bs \<Rightarrow> b0 = CHR ''l'') \<and> 2 < length buf
      then Call_xkblayout (drop 2 buf)
      else (case sscanf_c_d buf of
              None \<Rightarrow> select_call_3 buf
            | Some (c, v1) \<Rightarrow>
                if c = CHR ''k'' \<or> c = CHR ''K''
                then (if method = INJECT_METHOD_SENDEVENT then Call_xkey_sendevent c v1 0
                      else Call_xkey c v1 0)
                else select_call_3 buf))"

fun run_call :: "display \<Rightarrow> call \<Rightarrow> world \<Rightarrow> outcome" where
  "run_call dpy (Call_xkblayout layout) w = xkblayout dpy layout w"
| "run_call dpy (Call_xkey_sendevent c v1 v2) w = Continue (xkey_sendevent dpy c v1 v2 w)"
| "run_call dpy (Call_xkey c v1 v2) w = Continue (xkey dpy c v1 v2 w)"
| "run_call dpy (Call_xmotion v1 v2) w = Continue (xmotion dpy v1 v2 w)"
| "run_call dpy (Call_xbutton c v1 v2) w = Continue (xbutton dpy c v1 v2 w)"
| "run_call dpy (Call_warnx msg) w = Continue (warnx msg w)"

definition dispatch :: "display \<Rightarrow> inject_method \<Rightarrow> string \<Rightarrow> world \<Rightarrow> outcome" where
  "dispatch dpy method buf w = run_call dpy (select_call method buf) w"

subsection \<open>main: reading standard input\<close>

text \<open>
  Standard input is the bytes still to be read and the way the stream ends: at end of
  file, or with a read error.
\<close>

datatype stream_end = Eof | IoError

type_synonym stream = "string \<times> stream_end"

text \<open>At most \<open>k\<close> characters, stopping after a newline.\<close>

fun fgets_take :: "nat \<Rightarrow> string \<Rightarrow> string \<times> string" where
  "fgets_take 0 s = ([], s)"
| "fgets_take (Suc k) [] = ([], [])"
| "fgets_take (Suc k) (c # s) =
     (if c = CHR 0x0A then ([c], s)
      else (case fgets_take k s of (b, r) \<Rightarrow> (c # b, r)))"

text \<open>
  \<open>fgets(buf, sz, stdin)\<close>: \<open>None\<close> is the null pointer, returned at end of file when
  nothing was read, and on a read error (met when the buffer is neither full nor closed
  by a newline).
\<close>

definition fgets :: "nat \<Rightarrow> stream \<Rightarrow> (string \<times> stream) option" where
  "fgets sz inp =
     (case fgets_take (sz - 1) (fst inp) of
        (buf, rest) \<Rightarrow>
          if buf = [] then None
          else if snd inp = IoError \<and> length buf < sz - 1 \<and> last buf \<noteq> CHR 0x0A then None
          else Some (buf, (rest, snd inp)))"

definition ferror :: "stream \<Rightarrow> bool" where
  "ferror inp = (snd inp = IoError)"

definition feof :: "stream \<Rightarrow> bool" where
  "feof inp = (snd inp = Eof)"

text \<open>
  \<open>strcspn\<close> on a buffer that may hold NUL bytes read from the input: the C string ends
  at the first of them. \<open>buf_at\<close> is \<open>buf[n]\<close>, the terminator that \<open>fgets\<close> wrote
  included.
\<close>

definition strcspn :: "string \<Rightarrow> string \<Rightarrow> nat" where
  "strcspn s reject = length (takeWhile (\<lambda>c. c \<noteq> CHR 0x00 \<and> c \<notin> set reject) s)"

definition buf_at :: "string \<Rightarrow> nat \<Rightarrow> char" where
  "buf_at buf n = (if n < length buf then buf ! n else CHR 0x00)"

lemma fgets_take_length:
  "fgets_take k s = (b, r) \<Longrightarrow> length s = length b + length r"
  by (induction k s arbitrary: b r rule: fgets_take.induct) (auto split: if_splits prod.splits)

lemma fgets_shorter:
  "fgets sz inp = Some (buf, inp') \<Longrightarrow> length (fst inp') < length (fst inp)"
  by (auto simp: fgets_def dest: fgets_take_length split: prod.splits if_splits)

text \<open>
  The loop of main, from \<open>skip_truncated = 0\<close> on. \<open>Continue\<close> is leaving the loop
  because \<open>fgets\<close> returned the null pointer.
\<close>

function main_loop :: "display \<Rightarrow> inject_method \<Rightarrow> stream \<Rightarrow> bool \<Rightarrow> world \<Rightarrow> outcome" where
  "main_loop dpy method inp skip_truncated w =
     (case fgets 64 inp of
        None \<Rightarrow> Continue w
      | Some (buf, inp') \<Rightarrow>
          (let n = strcspn buf [CHR 0x0D, CHR 0x0A] in
           if buf_at buf n = CHR 0x00
           then main_loop dpy method inp' True
                  (if skip_truncated then w else warnx ''parse error; truncated input'' w)
           else if skip_truncated then main_loop dpy method inp' False w
           else (case dispatch dpy method (take n buf) w of
                   Continue w' \<Rightarrow> main_loop dpy method inp' False w'
                 | Fatal w' \<Rightarrow> Fatal w'
                 | Blocked w' \<Rightarrow> Blocked w')))"
  by pat_completeness auto
termination
  by (relation "measure (\<lambda>(dpy, method, inp, skip_truncated, w). length (fst inp))")
     (auto dest: fgets_shorter)

declare main_loop.simps [simp del]

text \<open>
  The end of main: the exit status, or no exit at all. \<open>errno\<close> is whatever the last
  library call left there.
\<close>

datatype exit = Exit c_int world | Hang world

definition main :: "display \<Rightarrow> inject_method \<Rightarrow> stream \<Rightarrow> c_int \<Rightarrow> world \<Rightarrow> exit" where
  "main dpy method inp errno w =
     (case main_loop dpy method inp False w of
        Continue w' \<Rightarrow>
          if ferror inp then Exit 1 (emit (Err ''reading stdin'') w')
          else if \<not> feof inp \<and> errno \<noteq> 0 then Exit 1 (emit (Err ''fgets'') w')
          else Exit 0 w'
      | Fatal w' \<Rightarrow> Exit 1 w'
      | Blocked w' \<Rightarrow> Hang w')"

subsection \<open>A display and a start state to run the program on\<close>

text \<open>The state at the start of the loop: the statics are zero, nothing was done yet.\<close>

definition world0 :: world where
  "world0 = \<lparr>trace = [], modifiers = 0, xb_root = None_window, xb_x_root = 0, xb_y_root = 0,
             queue = [], kbd_gen = 0\<rparr>"

text \<open>
  An 800x600 display with the pointer at (100, 100), the keys \<open>a\<close> (keysym 97, keycode
  38), \<open>Shift_L\<close> (65505, keycode 50) and \<open>Shift_R\<close> (65506, keycode 62), both shift keys
  on the modifier bit 1, and a \<open>setxkbmap\<close> that succeeds and is answered by one
  \<open>MappingNotify\<close> event.
\<close>

definition test_display :: display where
  "test_display =
     \<lparr>XKeysymToKeycode = (\<lambda>gen ks. if ks = 97 then 38 else if ks = 65505 then 50
                                  else if ks = 65506 then 62 else 0),
      XkbKeysymToModifiers = (\<lambda>gen ks. if ks = 65505 \<or> ks = 65506 then 1 else 0),
      XStringToKeysym = (\<lambda>s. 65515),
      XGetInputFocus = Some 7,
      RootWindow = 1,
      XQueryPointer = (1, 100, 100),
      DisplayWidth = 800,
      DisplayHeight = 600,
      XCheckMaskEvent = (\<lambda>mask e. False),
      system_call = (\<lambda>s. (0, [\<lparr>ev_type = MappingNotify, ev_request = MappingKeyboard\<rparr>]))\<rparr>"

text \<open>
  The same display with a \<open>system\<close> that returns -1, and with a \<open>setxkbmap\<close> that no
  event answers.
\<close>

definition failing_display :: display where
  "failing_display = test_display\<lparr>system_call := (\<lambda>s. (- 1, []))\<rparr>"

definition blocking_display :: display where
  "blocking_display = test_display\<lparr>system_call := (\<lambda>s. (0, []))\<rparr>"

subsection \<open>Notions used to state the properties\<close>

text \<open>
  The clamp in the words of the specification: a value below 0 becomes 0, a value at or
  above the bound becomes the bound, every other value stays.
\<close>

definition spec_clamp :: "c_int \<Rightarrow> c_int \<Rightarrow> c_int" where
  "spec_clamp v bound = (if v <s 0 then 0 else if bound \<le>s v then bound else v)"

text \<open>The pointer state \<open>xb\<close>, as far as the program reads it again.\<close>

definition xb :: "world \<Rightarrow> window \<times> c_int \<times> c_int" where
  "xb w = (xb_root w, xb_x_root w, xb_y_root w)"

text \<open>
  The position a motion command starts from: the one stored, or the one
  \<open>XQueryPointer\<close> reports while none is stored.
\<close>

definition pointer_position :: "display \<Rightarrow> world \<Rightarrow> c_int \<times> c_int" where
  "pointer_position dpy w =
     (if xb_root w = None_window then snd (XQueryPointer dpy) else (xb_x_root w, xb_y_root w))"

fun is_xmotion :: "call \<Rightarrow> bool" where
  "is_xmotion (Call_xmotion v1 v2) = True"
| "is_xmotion c = False"

text \<open>
  A buffer as the loop tests it: \<open>buf[n] == '\0'\<close> for \<open>n = strcspn(buf, "\r\n")\<close>, no
  line end in the buffer.
\<close>

definition unterminated :: "string \<Rightarrow> bool" where
  "unterminated buf = (buf_at buf (strcspn buf [CHR 0x0D, CHR 0x0A]) = CHR 0x00)"

text \<open>The next \<open>k\<close> buffers that \<open>fgets(buf, 64, stdin)\<close> fills, and the input left.\<close>

fun read_bufs :: "nat \<Rightarrow> stream \<Rightarrow> (string list \<times> stream) option" where
  "read_bufs 0 inp = Some ([], inp)"
| "read_bufs (Suc k) inp =
     (case fgets 64 inp of
        None \<Rightarrow> None
      | Some (buf, inp') \<Rightarrow>
          (case read_bufs k inp' of
             None \<Rightarrow> None
           | Some (bufs, inp'') \<Rightarrow> Some (buf # bufs, inp'')))"

text \<open>Text with no NUL, carriage return or newline in it: the inside of a line.\<close>

definition plain :: "string \<Rightarrow> bool" where
  "plain s = list_all (\<lambda>c. c \<noteq> CHR 0x00 \<and> c \<noteq> CHR 0x0D \<and> c \<noteq> CHR 0x0A) s"

text \<open>The stored pointer position lies on the screen, its far edges included.\<close>

definition pointer_in_bounds :: "display \<Rightarrow> world \<Rightarrow> bool" where
  "pointer_in_bounds dpy w =
     (0 \<le>s xb_x_root w \<and> xb_x_root w \<le>s DisplayWidth dpy \<and>
      0 \<le>s xb_y_root w \<and> xb_y_root w \<le>s DisplayHeight dpy)"

text \<open>The line that main cuts out of a buffer: what comes before the first line end.\<close>

definition line_of :: "string \<Rightarrow> string" where
  "line_of buf = take (strcspn buf [CHR 0x0D, CHR 0x0A]) buf"

text \<open>
  The three tests of the chain, by name: a layout line (\<open>buf[0] == 'l' && n > 2\<close>), a
  two-field key line (the two-field \<open>sscanf\<close> stores two values and \<open>c\<close> is \<open>k\<close> or
  \<open>K\<close>), and the three-field form. A line has an invalid format when it passes none of
  them; it has an unknown control when it is no layout line and has the three-field form
  with a character other than \<open>m\<close>, \<open>b\<close>, \<open>B\<close>, \<open>k\<close>, \<open>K\<close>.
\<close>

definition layout_line :: "string \<Rightarrow> bool" where
  "layout_line line = ((case line of [] \<Rightarrow> False | b0 # bs \<Rightarrow> b0 = CHR ''l'') \<and> 2 < length line)"

definition key_line_2 :: "string \<Rightarrow> bool" where
  "key_line_2 line =
     (case sscanf_c_d line of None \<Rightarrow> False | Some (c, v1) \<Rightarrow> c = CHR ''k'' \<or> c = CHR ''K'')"

definition invalid_format :: "string \<Rightarrow> bool" where
  "invalid_format line =
     (\<not> layout_line line \<and> \<not> key_line_2 line \<and> sscanf_c_d_d line = None)"

definition unknown_control :: "string \<Rightarrow> bool" where
  "unknown_control line =
     (\<not> layout_line line \<and>
      (case sscanf_c_d_d line of
         None \<Rightarrow> False
       | Some (c, v1, v2) \<Rightarrow> c \<notin> set ''mbBkK''))"

section \<open>Properties\<close>

subsection \<open>Basic facts\<close>

lemma all_isalpha_iff: "all_isalpha s = (\<forall>c \<in> set s. isalpha c)"
  by (induction s) auto

lemma all_isalpha_replicate: "isalpha c \<Longrightarrow> all_isalpha (replicate n c)"
  by (induction n) auto

lemma trace_warnx: "trace (warnx msg w) = trace w @ [Warnx msg]"
  by (simp add: warnx_def emit_def)

lemma trace_world0: "trace world0 = []"
  by (simp add: world0_def)

subsection \<open>The layout switch: validation\<close>

text \<open>
  C6. A layout name that holds a character which is no letter is rejected: \<open>xkblayout\<close>
  returns with one warning added to the trace and nothing else changed, so neither
  \<open>system\<close> nor any Xlib call was made. Hence the external command runs only for names
  made of letters.
\<close>

theorem xkblayout_rejects_non_alpha:
  assumes "c \<in> set layout" and "\<not> isalpha c"
  shows "xkblayout dpy layout w =
           Continue (w\<lparr>trace := trace w @
                        [Warnx ''layout name cannot contain special characters'']\<rparr>)"
proof -
  from assms have "\<not> all_isalpha layout"
    by (auto simp: all_isalpha_iff)
  then show ?thesis
    by (simp add: xkblayout_def warnx_def emit_def)
qed

theorem xkblayout_rejects_non_alpha_witness:
  "CHR ''-'' \<in> set ''us-2'' \<and> \<not> isalpha (CHR ''-'') \<and>
   xkblayout test_display ''us-2'' world0 =
     Continue (world0\<lparr>trace := [Warnx ''layout name cannot contain special characters'']\<rparr>) \<and>
   xkblayout test_display ''; rm -rf'' world0 =
     Continue (world0\<lparr>trace := [Warnx ''layout name cannot contain special characters'']\<rparr>)"
proof -
  have a: "CHR ''-'' \<in> set ''us-2''" by simp
  have b: "\<not> isalpha (CHR ''-'')" by (simp add: isalpha_def)
  have c: "CHR '';'' \<in> set ''; rm -rf''" by simp
  have d: "\<not> isalpha (CHR '';'')" by (simp add: isalpha_def)
  show ?thesis
    using a b xkblayout_rejects_non_alpha [OF a b, of test_display world0]
      xkblayout_rejects_non_alpha [OF c d, of test_display world0] trace_world0
    by simp
qed

text \<open>
  C10. A name made of letters only and at least 118 characters long is rejected with the
  warning \<open>layout name too long\<close>, and nothing else is done: \<open>setxkbmap\<close> and the name
  would not fit the 128 bytes of \<open>s\<close>.
\<close>

theorem xkblayout_rejects_long_name:
  assumes "all_isalpha layout" and "118 \<le> length layout"
  shows "xkblayout dpy layout w =
           Continue (w\<lparr>trace := trace w @ [Warnx ''layout name too long'']\<rparr>)"
  using assms by (simp add: xkblayout_def warnx_def emit_def)

theorem xkblayout_rejects_long_name_witness:
  "all_isalpha (replicate 118 (CHR ''a'')) \<and> 118 \<le> length (replicate 118 (CHR ''a'')) \<and>
   xkblayout test_display (replicate 118 (CHR ''a'')) world0 =
     Continue (world0\<lparr>trace := [Warnx ''layout name too long'']\<rparr>)"
proof -
  have a: "all_isalpha (replicate 118 (CHR ''a''))"
    by (rule all_isalpha_replicate) (simp add: isalpha_def)
  have b: "118 \<le> length (replicate 118 (CHR ''a''))" by simp
  show ?thesis
    using a b xkblayout_rejects_long_name [OF a b, of test_display world0] trace_world0
    by simp
qed

text \<open>
  Conversely, where \<open>system\<close> was called the name was made of letters and shorter
  than 118 characters.
\<close>

lemma xkblayout_system_only_valid:
  assumes "System s \<in> set (trace (world_of (xkblayout dpy layout w)))"
    and "System s \<notin> set (trace w)"
  shows "all_isalpha layout \<and> length layout < 118"
  using assms
  by (auto simp: xkblayout_def warnx_def emit_def split: if_splits)

text \<open>
  A name made of letters and shorter than 118 characters is handed to \<open>system\<close>,
  whatever happens afterwards.
\<close>

lemma trace_update_mapping: "a \<in> set (trace w) \<Longrightarrow> a \<in> set (trace (update_mapping e w))"
  by (simp add: update_mapping_def emit_def)

lemma trace_drain_mapping: "a \<in> set (trace w) \<Longrightarrow> a \<in> set (trace (drain_mapping dpy w))"
proof (induction dpy w rule: drain_mapping.induct)
  case (1 dpy w)
  show ?case
  proof (cases "check_mask_event (XCheckMaskEvent dpy (of_nat MappingNotify)) (queue w)")
    case None
    with "1.prems" show ?thesis by (subst drain_mapping.simps) simp
  next
    case (Some p)
    obtain e q where p: "p = (e, q)" by (cases p)
    have "a \<in> set (trace (update_mapping e (w\<lparr>queue := q\<rparr>)))"
      using "1.prems" by (intro trace_update_mapping) simp
    then have "a \<in> set (trace (drain_mapping dpy (update_mapping e (w\<lparr>queue := q\<rparr>))))"
      using "1.IH" Some p by simp
    then show ?thesis
      using Some p by (subst drain_mapping.simps) simp
  qed
qed

lemma trace_await_mapping:
  "a \<in> set (trace w) \<Longrightarrow> a \<in> set (trace (world_of (await_mapping q w)))"
  by (induction q) (auto intro: trace_update_mapping)

lemma xkblayout_accepts:
  assumes "all_isalpha layout" and "length layout < 118"
  shows "System (''setxkbmap '' @ layout) \<in> set (trace (world_of (xkblayout dpy layout w)))"
proof -
  let ?s = "''setxkbmap '' @ layout"
  let ?w4 = "emit (System ?s)
               (drain_mapping dpy
                  (emit XSync
                     (emit (XGrabKey
                              (ucast (XKeysymToKeycode dpy (kbd_gen w)
                                        (XStringToKeysym dpy ''Super_L'')))
                              (RootWindow dpy)) w)))"
  have m: "System ?s \<in> set (trace ?w4)"
    by (simp add: emit_def)
  have c: "System ?s \<in> set (trace (world_of
             (case r of Continue w5 \<Rightarrow> Continue (drain_mapping dpy w5)
              | Fatal w5 \<Rightarrow> Fatal w5 | Blocked w5 \<Rightarrow> Blocked w5)))"
    if "System ?s \<in> set (trace (world_of r))" for r
    using that by (cases r) (simp_all add: trace_drain_mapping)
  have e: "System ?s \<in> set (trace (emit (Err ''system'') ?w4))"
    using m by (simp add: emit_def)
  show ?thesis
    using assms e c [OF trace_await_mapping [OF m]]
    by (simp add: xkblayout_def Let_def split: prod.splits)
qed

subsection \<open>Pointer motion\<close>

lemma clamp_steps:
  "0 \<le>s bound \<Longrightarrow>
   (if bound \<le>s (if v <s 0 then 0 else v) then bound else (if v <s 0 then 0 else v)) =
   spec_clamp v bound"
  by (auto simp: spec_clamp_def word_sle_eq word_sless_alt signed_eq_0_iff)

text \<open>
  As long as the subtraction does not leave the range of \<open>int\<close>, the clamp of the wrapped
  difference is the clamp of the integer difference.
\<close>

lemma spec_clamp_sint:
  assumes "0 \<le>s bound" and "- (2 ^ 31) \<le> sint x - sint dx" and "sint x - sint dx < 2 ^ 31"
  shows "sint (spec_clamp (x - dx) bound) =
           (if sint x - sint dx < 0 then 0
            else if sint bound \<le> sint x - sint dx then sint bound
            else sint x - sint dx)"
proof -
  have "sint (x - dx) = sint x - sint dx"
    using assms(2,3)
    by (simp add: sint_word_diff signed_take_bit_int_eq_self)
  then show ?thesis
    by (auto simp: spec_clamp_def word_sle_eq word_sless_alt)
qed

text \<open>
  C2. On a screen of width W and height H (neither negative), a motion command (dx, dy)
  met at pointer position (x, y) stores the position (clamp (x - dx) W, clamp (y - dy) H),
  the deltas subtracted, and injects one absolute motion event at that position, followed
  by a flush. The subtraction is the one of \<open>int\<close>.
\<close>

theorem xmotion_clamps:
  assumes "0 \<le>s DisplayWidth dpy" and "0 \<le>s DisplayHeight dpy"
    and "pointer_position dpy w = (x, y)"
  shows "xb_x_root (xmotion dpy dx dy w) = spec_clamp (x - dx) (DisplayWidth dpy) \<and>
         xb_y_root (xmotion dpy dx dy w) = spec_clamp (y - dy) (DisplayHeight dpy) \<and>
         trace (xmotion dpy dx dy w) =
           trace w @ [XTestFakeMotionEvent (spec_clamp (x - dx) (DisplayWidth dpy))
                        (spec_clamp (y - dy) (DisplayHeight dpy)), XFlush]"
  using assms
  by (auto simp: xmotion_def pointer_position_def emit_def Let_def clamp_steps
           split: prod.splits if_splits)

theorem xmotion_clamps_witness:
  "0 \<le>s DisplayWidth test_display \<and> 0 \<le>s DisplayHeight test_display \<and>
   pointer_position test_display world0 = (100, 100) \<and>
   xb_x_root (xmotion test_display 200 (- 1000) world0) = 0 \<and>
   xb_y_root (xmotion test_display 200 (- 1000) world0) = 600 \<and>
   trace (xmotion test_display 200 (- 1000) world0) = [XTestFakeMotionEvent 0 600, XFlush]"
proof -
  have a: "0 \<le>s DisplayWidth test_display"
    by (simp add: test_display_def word_sle_eq)
  have b: "0 \<le>s DisplayHeight test_display"
    by (simp add: test_display_def word_sle_eq)
  have c: "pointer_position test_display world0 = (100, 100)"
    by (simp add: pointer_position_def test_display_def world0_def None_window_def)
  have d: "spec_clamp (100 - 200) (DisplayWidth test_display) = 0"
    by (simp add: spec_clamp_def test_display_def word_sle_eq word_sless_alt)
  have e: "spec_clamp (100 - (- 1000)) (DisplayHeight test_display) = 600"
    by (simp add: spec_clamp_def test_display_def word_sle_eq word_sless_alt)
  show ?thesis
    using a b c xmotion_clamps [OF a b c, of 200 "- 1000"] d e trace_world0
    by simp
qed

subsection \<open>The pointer state and the other handlers\<close>

lemma xb_emit: "xb (emit a w) = xb w"
  by (simp add: xb_def emit_def)

lemma xb_warnx: "xb (warnx msg w) = xb w"
  by (simp add: warnx_def xb_emit)

lemma xb_xkey: "xb (xkey dpy c v1 v2 w) = xb w"
  by (simp add: xkey_def Let_def xb_emit xb_warnx)

lemma xb_xkey_sendevent: "xb (xkey_sendevent dpy c v1 v2 w) = xb w"
  by (simp add: xkey_sendevent_def Let_def xb_def emit_def warnx_def split: option.splits)

lemma xb_xbutton: "xb (xbutton dpy c v1 v2 w) = xb w"
  by (simp add: xbutton_def Let_def xb_emit)

lemma xb_update_mapping: "xb (update_mapping e w) = xb w"
  by (simp add: update_mapping_def xb_def emit_def)

lemma xb_drain_mapping: "xb (drain_mapping dpy w) = xb w"
proof (induction dpy w rule: drain_mapping.induct)
  case (1 dpy w)
  show ?case
  proof (cases "check_mask_event (XCheckMaskEvent dpy (of_nat MappingNotify)) (queue w)")
    case None
    then show ?thesis by (subst drain_mapping.simps) simp
  next
    case (Some p)
    obtain e q where p: "p = (e, q)" by (cases p)
    have "xb (drain_mapping dpy (update_mapping e (w\<lparr>queue := q\<rparr>))) =
          xb (update_mapping e (w\<lparr>queue := q\<rparr>))"
      using "1.IH" Some p by simp
    also have "\<dots> = xb w"
      by (simp add: xb_update_mapping) (simp add: xb_def)
    finally show ?thesis
      using Some p by (subst drain_mapping.simps) simp
  qed
qed

lemma xb_await_mapping: "xb (world_of (await_mapping q w)) = xb w"
  by (induction q) (simp_all add: xb_update_mapping, simp_all add: xb_def)

lemma xb_xkblayout: "xb (world_of (xkblayout dpy layout w)) = xb w"
proof -
  have a: "xb (world_of (case r of Continue w5 \<Rightarrow> Continue (drain_mapping dpy w5)
                          | Fatal w5 \<Rightarrow> Fatal w5 | Blocked w5 \<Rightarrow> Blocked w5)) =
           xb (world_of r)" for r
    by (cases r) (simp_all add: xb_drain_mapping)
  show ?thesis
    by (simp add: xkblayout_def Let_def xb_warnx xb_emit a xb_await_mapping xb_drain_mapping
             split: prod.splits)
qed

lemma xb_run_call: "\<not> is_xmotion call \<Longrightarrow> xb (world_of (run_call dpy call w)) = xb w"
  by (cases call)
     (simp_all add: xb_xkblayout xb_xkey xb_xkey_sendevent xb_xbutton xb_warnx)

text \<open>
  C8. On a screen whose width and height are not negative, the position that a motion
  command stores lies between 0 and the width, and between 0 and the height, both ends
  included, whatever was stored before. Every call of the loop that is no motion command
  leaves the pointer state as it was.
\<close>

theorem pointer_state_invariant:
  assumes "0 \<le>s DisplayWidth dpy" and "0 \<le>s DisplayHeight dpy"
  shows "0 \<le>s xb_x_root (xmotion dpy dx dy w) \<and>
         xb_x_root (xmotion dpy dx dy w) \<le>s DisplayWidth dpy \<and>
         0 \<le>s xb_y_root (xmotion dpy dx dy w) \<and>
         xb_y_root (xmotion dpy dx dy w) \<le>s DisplayHeight dpy \<and>
         (\<not> is_xmotion call \<longrightarrow> xb (world_of (run_call dpy call w)) = xb w)"
  using assms xb_run_call [of call dpy w]
  by (auto simp: xmotion_def emit_def Let_def word_sle_eq word_sless_alt
           split: prod.splits if_splits)

theorem pointer_state_invariant_witness:
  "0 \<le>s DisplayWidth test_display \<and> 0 \<le>s DisplayHeight test_display \<and>
   0 \<le>s xb_x_root (xmotion test_display 200 (- 1000) world0) \<and>
   xb_x_root (xmotion test_display 200 (- 1000) world0) \<le>s DisplayWidth test_display \<and>
   0 \<le>s xb_y_root (xmotion test_display 200 (- 1000) world0) \<and>
   xb_y_root (xmotion test_display 200 (- 1000) world0) \<le>s DisplayHeight test_display \<and>
   \<not> is_xmotion (Call_xkblayout ''us'') \<and>
   xb (world_of (run_call test_display (Call_xkblayout ''us'') world0)) = xb world0"
proof -
  have a: "0 \<le>s DisplayWidth test_display"
    by (simp add: test_display_def word_sle_eq)
  have b: "0 \<le>s DisplayHeight test_display"
    by (simp add: test_display_def word_sle_eq)
  show ?thesis
    using a b
      pointer_state_invariant [OF a b, of 200 "- 1000" world0 "Call_xkblayout ''us''"]
    by simp
qed

subsection \<open>Keys sent with XSendEvent\<close>

lemma or_and_not: "(a OR m) AND NOT m = a AND NOT (m :: 32 word)"
  by (auto simp: bit_eq_iff bit_and_iff bit_or_iff bit_not_iff)

lemma and_not_same: "(a AND NOT m = a) = (a AND m = (0 :: 32 word))"
  by (auto simp: bit_eq_iff bit_and_iff bit_or_iff bit_not_iff)

lemma or_and_same: "(a OR m) AND m = (m :: 32 word)"
  by (auto simp: bit_eq_iff bit_and_iff bit_or_iff bit_not_iff)

text \<open>
  C3, as the claim states it, fails: with \<open>Shift_L\<close> held (modifier mask 1), the press of
  \<open>Shift_R\<close>, a keysym of the same bit, followed by its release leaves the mask at 0, not
  at its value 1 from before that press.
\<close>

theorem second_shift_release_clears_modifier:
  "modifiers (xkey_sendevent test_display (CHR ''k'') 65505 0 world0) = 1 \<and>
   modifiers (xkey_sendevent test_display (CHR ''K'') 65506 0
               (xkey_sendevent test_display (CHR ''k'') 65506 0
                  (xkey_sendevent test_display (CHR ''k'') 65505 0 world0))) = 0 \<and>
   modifiers (xkey_sendevent test_display (CHR ''K'') 65506 0
               (xkey_sendevent test_display (CHR ''k'') 65506 0
                  (xkey_sendevent test_display (CHR ''k'') 65505 0 world0))) \<noteq>
   modifiers (xkey_sendevent test_display (CHR ''k'') 65505 0 world0)"
  by (simp add: xkey_sendevent_def Let_def emit_def warnx_def test_display_def world0_def)

text \<open>
  C3, amended. With M the modifier bits of the keysym: a press sets the mask to its old
  value OR M, so the bits of M are set after it; the press followed by the release leaves
  the old value AND NOT M; and that is the value from before the press exactly when no
  bit of M was set then.
\<close>

theorem modifier_press_release:
  "modifiers (xkey_sendevent dpy (CHR ''k'') state k1 w) =
     modifiers w OR XkbKeysymToModifiers dpy (kbd_gen w) state \<and>
   modifiers (xkey_sendevent dpy (CHR ''k'') state k1 w) AND
     XkbKeysymToModifiers dpy (kbd_gen w) state = XkbKeysymToModifiers dpy (kbd_gen w) state \<and>
   modifiers (xkey_sendevent dpy (CHR ''K'') state k2 (xkey_sendevent dpy (CHR ''k'') state k1 w)) =
     modifiers w AND NOT (XkbKeysymToModifiers dpy (kbd_gen w) state) \<and>
   (modifiers (xkey_sendevent dpy (CHR ''K'') state k2 (xkey_sendevent dpy (CHR ''k'') state k1 w)) =
      modifiers w) =
     (modifiers w AND XkbKeysymToModifiers dpy (kbd_gen w) state = 0)"
  by (simp add: xkey_sendevent_def Let_def emit_def warnx_def or_and_not and_not_same or_and_same
           split: option.splits)

theorem modifier_press_release_witness:
  "modifiers (xkey_sendevent test_display (CHR ''K'') 65505 0
               (xkey_sendevent test_display (CHR ''k'') 65505 0 world0)) = modifiers world0 \<and>
   modifiers (xkey_sendevent test_display (CHR ''k'') 65505 0 world0) = 1"
proof -
  have m: "XkbKeysymToModifiers test_display (kbd_gen world0) 65505 = 1"
    by (simp add: test_display_def)
  have z: "modifiers world0 = 0"
    by (simp add: world0_def)
  show ?thesis
    using modifier_press_release [where dpy = test_display and state = 65505 and w = world0
        and ?k1.0 = 0 and ?k2.0 = 0] m z
    by simp
qed

text \<open>
  C9. When the keysym has no keycode (\<open>XKeysymToKeycode\<close> gives 0), \<open>xkey_sendevent\<close>
  still updates the modifier mask and still sends the key event, with keycode 0, to the
  focus window (the root window, after the warning about the focus, when there is no
  focus); it emits no other warning. \<open>xkey\<close>, with no keycode given, only warns.
\<close>

theorem xkey_sendevent_keycode_zero:
  assumes "XKeysymToKeycode dpy (kbd_gen w) state = 0"
  shows "trace (xkey_sendevent dpy type state keycode w) =
           trace w @
           (case XGetInputFocus dpy of
              None \<Rightarrow> [Warnx ''no input focus; sending events to root window'']
            | Some f \<Rightarrow> []) @
           [XSendEvent (case XGetInputFocus dpy of None \<Rightarrow> RootWindow dpy | Some f \<Rightarrow> f) False
              (if type = CHR ''k'' then KeyPressMask else KeyReleaseMask)
              \<lparr>ke_type = (if type = CHR ''k'' then KeyPress else KeyRelease),
               ke_window = (case XGetInputFocus dpy of None \<Rightarrow> RootWindow dpy | Some f \<Rightarrow> f),
               ke_subwindow = (case XGetInputFocus dpy of None \<Rightarrow> RootWindow dpy | Some f \<Rightarrow> f),
               ke_state = modifiers (xkey_sendevent dpy type state keycode w),
               ke_keycode = 0,
               ke_time = CurrentTime\<rparr>,
            XFlush] \<and>
         modifiers (xkey_sendevent dpy type state keycode w) =
           (if type = CHR ''k''
            then modifiers w OR XkbKeysymToModifiers dpy (kbd_gen w) state
            else modifiers w AND NOT (XkbKeysymToModifiers dpy (kbd_gen w) state)) \<and>
         xkey dpy type state 0 w =
           w\<lparr>trace := trace w @ [Warnx ''couldn't find keycode for a keysym'']\<rparr>"
  using assms
  by (simp add: xkey_sendevent_def xkey_def Let_def emit_def warnx_def split: option.splits)

theorem xkey_sendevent_keycode_zero_witness:
  "XKeysymToKeycode test_display (kbd_gen world0) 65507 = 0 \<and>
   trace (xkey_sendevent test_display (CHR ''k'') 65507 0 world0) =
     [XSendEvent 7 False KeyPressMask
        \<lparr>ke_type = KeyPress, ke_window = 7, ke_subwindow = 7, ke_state = 0, ke_keycode = 0,
         ke_time = CurrentTime\<rparr>,
      XFlush] \<and>
   xkey test_display (CHR ''k'') 65507 0 world0 =
     world0\<lparr>trace := [Warnx ''couldn't find keycode for a keysym'']\<rparr>"
proof -
  have a: "XKeysymToKeycode test_display (kbd_gen world0) 65507 = 0"
    by (simp add: test_display_def)
  have f: "XGetInputFocus test_display = Some 7"
    by (simp add: test_display_def)
  have m: "XkbKeysymToModifiers test_display (kbd_gen world0) 65507 = 0"
    by (simp add: test_display_def)
  have z: "modifiers world0 = 0"
    by (simp add: world0_def)
  show ?thesis
    using a xkey_sendevent_keycode_zero [OF a, of "CHR ''k''" 0] f m z trace_world0
    by simp
qed

subsection \<open>The line parser\<close>

lemma sscanf_c_d_d_prefix:
  "sscanf_c_d_d buf = Some (c, v1, v2) \<Longrightarrow> sscanf_c_d buf = Some (c, v1)"
  by (auto simp: sscanf_c_d_d_def sscanf_c_d_def split: list.splits option.splits)

lemma select_call_xkey_keycode:
  assumes "select_call method buf = Call_xkey c v1 v2"
  shows "v2 = 0"
proof (rule ccontr)
  assume nz: "v2 \<noteq> 0"
  show False
  proof (cases "sscanf_c_d_d buf")
    case None
    with assms nz show False
      by (auto simp: select_call_def select_call_3_def split: if_splits option.splits)
  next
    case (Some t)
    obtain c' a b where t: "t = (c', a, b)" by (cases t)
    from Some t have "sscanf_c_d buf = Some (c', a)"
      by (simp add: sscanf_c_d_d_prefix)
    with assms nz Some t show False
      by (auto simp: select_call_def select_call_3_def split: if_splits option.splits)
  qed
qed

lemma select_call_xkey_sendevent_keycode:
  "select_call method buf = Call_xkey_sendevent c v1 v2 \<Longrightarrow> v2 = 0"
  by (auto simp: select_call_def select_call_3_def split: if_splits option.splits)

text \<open>
  Whatever passes the three-field \<open>sscanf\<close> with \<open>k\<close> or \<open>K\<close> has passed the two-field
  one before: the call made is the two-field one, with keycode 0.
\<close>

lemma three_field_key_line:
  assumes "sscanf_c_d_d buf = Some (c, v1, v2)" and "c = CHR ''k'' \<or> c = CHR ''K''"
  shows "select_call method buf =
           (if method = INJECT_METHOD_SENDEVENT then Call_xkey_sendevent c v1 0
            else Call_xkey c v1 0)"
proof -
  from assms(1) obtain r where b: "buf = c # r"
    by (auto simp: sscanf_c_d_d_def split: list.splits option.splits)
  show ?thesis
    using assms(2) sscanf_c_d_d_prefix [OF assms(1)] b
    by (auto simp: select_call_def)
qed

text \<open>
  C1 fails on the code. The line \<open>k 97 24\<close> passes the three-field \<open>sscanf\<close> with state 97
  and keycode 24, but the call chosen is \<open>xkey(dpy, 'k', 97, 0)\<close> (\<open>xkey_sendevent\<close> with
  \<open>-s\<close>): the key injected is keycode 38, the one of keysym 97, where
  \<open>xkey(dpy, 'k', 97, 24)\<close> would have injected keycode 24.
\<close>

theorem three_field_key_line_drops_keycode:
  "sscanf_c_d_d ''k 97 24'' = Some (CHR ''k'', 97, 24) \<and>
   select_call INJECT_METHOD_XTEST ''k 97 24'' = Call_xkey (CHR ''k'') 97 0 \<and>
   select_call INJECT_METHOD_SENDEVENT ''k 97 24'' = Call_xkey_sendevent (CHR ''k'') 97 0 \<and>
   main test_display INJECT_METHOD_XTEST (''k 97 24'' @ [CHR 0x0A], Eof) 0 world0 =
     Exit 0 (world0\<lparr>trace := [XTestFakeKeyEvent 38 True, XFlush]\<rparr>) \<and>
   xkey test_display (CHR ''k'') 97 24 world0 =
     world0\<lparr>trace := [XTestFakeKeyEvent 24 True, XFlush]\<rparr>"
  by code_simp

text \<open>
  C4, as the claim states it, fails: the line \<open>lxus\<close> has no blank after its \<open>l\<close>, and
  yet it is a layout line, with the name \<open>us\<close>, and \<open>setxkbmap us\<close> is run.
\<close>

theorem layout_line_without_space:
  "''lxus'' ! 1 \<noteq> CHR '' '' \<and>
   select_call INJECT_METHOD_XTEST ''lxus'' = Call_xkblayout ''us'' \<and>
   trace (world_of (dispatch test_display INJECT_METHOD_XTEST ''lxus'' world0)) =
     [XGrabKey 0 1, XSync, System ''setxkbmap us'', XRefreshKeyboardMapping]"
  by code_simp

text \<open>
  C4, amended. A line is a layout line with the name \<open>name\<close> exactly when it is \<open>l\<close>, one
  more character of any kind, and then \<open>name\<close>, which is not empty.
\<close>

theorem layout_line_classification:
  "(select_call method buf = Call_xkblayout name) =
   (\<exists>c. name \<noteq> [] \<and> buf = CHR ''l'' # c # name)"
proof
  assume a: "select_call method buf = Call_xkblayout name"
  then have g: "(case buf of [] \<Rightarrow> False | b0 # bs \<Rightarrow> b0 = CHR ''l'') \<and> 2 < length buf"
    and n: "name = drop 2 buf"
    by (auto simp: select_call_def select_call_3_def split: if_splits option.splits)
  from g obtain c rest where "buf = CHR ''l'' # c # rest" "rest \<noteq> []"
    by (cases buf; cases "tl buf") auto
  with n show "\<exists>c. name \<noteq> [] \<and> buf = CHR ''l'' # c # name"
    by auto
next
  assume "\<exists>c. name \<noteq> [] \<and> buf = CHR ''l'' # c # name"
  then show "select_call method buf = Call_xkblayout name"
    by (cases name) (auto simp: select_call_def)
qed

theorem layout_line_classification_witness:
  "select_call INJECT_METHOD_XTEST ''l us'' = Call_xkblayout ''us'' \<and>
   select_call INJECT_METHOD_XTEST ''l '' \<noteq> Call_xkblayout []"
  using layout_line_classification [of INJECT_METHOD_XTEST "''l us''" "''us''"]
    layout_line_classification [of INJECT_METHOD_XTEST "''l ''" "[]"]
  by simp

subsection \<open>The loop of main\<close>

lemma main_loop_end:
  "fgets 64 inp = None \<Longrightarrow> main_loop dpy method inp skip w = Continue w"
  by (subst main_loop.simps) simp

lemma main_loop_unterminated:
  "fgets 64 inp = Some (buf, inp') \<Longrightarrow> unterminated buf \<Longrightarrow>
   main_loop dpy method inp skip w =
     main_loop dpy method inp' True
       (if skip then w else warnx ''parse error; truncated input'' w)"
  by (subst main_loop.simps) (simp add: unterminated_def)

lemma main_loop_skip:
  "fgets 64 inp = Some (buf, inp') \<Longrightarrow> \<not> unterminated buf \<Longrightarrow>
   main_loop dpy method inp True w = main_loop dpy method inp' False w"
  by (subst main_loop.simps) (simp add: unterminated_def)

lemma main_loop_dispatch:
  "fgets 64 inp = Some (buf, inp') \<Longrightarrow> \<not> unterminated buf \<Longrightarrow>
   main_loop dpy method inp False w =
     (case dispatch dpy method (take (strcspn buf [CHR 0x0D, CHR 0x0A]) buf) w of
        Continue w' \<Rightarrow> main_loop dpy method inp' False w'
      | Fatal w' \<Rightarrow> Fatal w'
      | Blocked w' \<Rightarrow> Blocked w')"
  by (subst main_loop.simps) (simp add: unterminated_def Let_def)

lemma skipping_run:
  "read_bufs k inp = Some (bufs, inp1) \<Longrightarrow> list_all unterminated bufs \<Longrightarrow>
   main_loop dpy method inp True w = main_loop dpy method inp1 True w"
proof (induction k arbitrary: inp bufs)
  case 0
  then show ?case by simp
next
  case (Suc k)
  from Suc.prems(1) obtain buf inp' bufs' where
    f: "fgets 64 inp = Some (buf, inp')" and r: "read_bufs k inp' = Some (bufs', inp1)"
    and b: "bufs = buf # bufs'"
    by (auto split: option.splits)
  from Suc.prems(2) b have u: "unterminated buf" and us: "list_all unterminated bufs'"
    by simp_all
  have "main_loop dpy method inp True w = main_loop dpy method inp' True w"
    using main_loop_unterminated [OF f u, of dpy "method" True w] by simp
  also have "\<dots> = main_loop dpy method inp1 True w"
    by (rule Suc.IH [OF r us])
  finally show ?case .
qed

text \<open>
  C5. Let the loop, not skipping, meet a run of one or more buffers without a line end,
  followed by a buffer that has one (the rest of the over-long line). Then it goes on
  after that buffer, not skipping, with the state as it was and exactly one warning
  \<open>parse error; truncated input\<close> added: nothing of the run or of its rest was
  dispatched.
\<close>

theorem truncated_run_skipped:
  assumes "read_bufs (Suc k) inp = Some (bufs, inp1)"
    and "list_all unterminated bufs"
    and "fgets 64 inp1 = Some (rem, inp2)"
    and "\<not> unterminated rem"
  shows "main_loop dpy method inp False w =
           main_loop dpy method inp2 False
             (w\<lparr>trace := trace w @ [Warnx ''parse error; truncated input'']\<rparr>)"
proof -
  from assms(1) obtain buf inp' bufs' where
    f: "fgets 64 inp = Some (buf, inp')" and r: "read_bufs k inp' = Some (bufs', inp1)"
    and b: "bufs = buf # bufs'"
    by (auto split: option.splits)
  from assms(2) b have u: "unterminated buf" and us: "list_all unterminated bufs'"
    by simp_all
  let ?w = "warnx ''parse error; truncated input'' w"
  have "main_loop dpy method inp False w = main_loop dpy method inp' True ?w"
    using main_loop_unterminated [OF f u, of dpy "method" False w] by simp
  also have "\<dots> = main_loop dpy method inp1 True ?w"
    by (rule skipping_run [OF r us])
  also have "\<dots> = main_loop dpy method inp2 False ?w"
    by (rule main_loop_skip [OF assms(3,4)])
  finally show ?thesis
    by (simp add: warnx_def emit_def)
qed

theorem truncated_run_skipped_witness:
  "read_bufs (Suc 0) (replicate 70 (CHR ''a'') @ [CHR 0x0A] @ ''k 97'' @ [CHR 0x0A], Eof) =
     Some ([replicate 63 (CHR ''a'')], (replicate 7 (CHR ''a'') @ [CHR 0x0A] @ ''k 97'' @ [CHR 0x0A], Eof)) \<and>
   list_all unterminated [replicate 63 (CHR ''a'')] \<and>
   fgets 64 (replicate 7 (CHR ''a'') @ [CHR 0x0A] @ ''k 97'' @ [CHR 0x0A], Eof) =
     Some (replicate 7 (CHR ''a'') @ [CHR 0x0A], (''k 97'' @ [CHR 0x0A], Eof)) \<and>
   \<not> unterminated (replicate 7 (CHR ''a'') @ [CHR 0x0A]) \<and>
   main_loop test_display INJECT_METHOD_XTEST
     (replicate 70 (CHR ''a'') @ [CHR 0x0A] @ ''k 97'' @ [CHR 0x0A], Eof) False world0 =
   Continue (world0\<lparr>trace := [Warnx ''parse error; truncated input'',
                                XTestFakeKeyEvent 38 True, XFlush]\<rparr>)"
proof -
  have a: "read_bufs (Suc 0) (replicate 70 (CHR ''a'') @ [CHR 0x0A] @ ''k 97'' @ [CHR 0x0A], Eof) =
     Some ([replicate 63 (CHR ''a'')], (replicate 7 (CHR ''a'') @ [CHR 0x0A] @ ''k 97'' @ [CHR 0x0A], Eof))"
    by code_simp
  have b: "list_all unterminated [replicate 63 (CHR ''a'')]"
    by code_simp
  have c: "fgets 64 (replicate 7 (CHR ''a'') @ [CHR 0x0A] @ ''k 97'' @ [CHR 0x0A], Eof) =
     Some (replicate 7 (CHR ''a'') @ [CHR 0x0A], (''k 97'' @ [CHR 0x0A], Eof))"
    by code_simp
  have d: "\<not> unterminated (replicate 7 (CHR ''a'') @ [CHR 0x0A])"
    by code_simp
  have e: "main_loop test_display INJECT_METHOD_XTEST (''k 97'' @ [CHR 0x0A], Eof) False
             (world0\<lparr>trace := trace world0 @ [Warnx ''parse error; truncated input'']\<rparr>) =
           Continue (world0\<lparr>trace := [Warnx ''parse error; truncated input'',
                                XTestFakeKeyEvent 38 True, XFlush]\<rparr>)"
    by code_simp
  show ?thesis
    using a b c d e
      truncated_run_skipped [OF a b c d, of test_display INJECT_METHOD_XTEST world0]
    by simp
qed

text \<open>The same when the run is the end of the input.\<close>

lemma truncated_run_at_end:
  assumes "read_bufs (Suc k) inp = Some (bufs, inp1)"
    and "list_all unterminated bufs"
    and "fgets 64 inp1 = None"
  shows "main_loop dpy method inp False w =
           Continue (w\<lparr>trace := trace w @ [Warnx ''parse error; truncated input'']\<rparr>)"
proof -
  from assms(1) obtain buf inp' bufs' where
    f: "fgets 64 inp = Some (buf, inp')" and r: "read_bufs k inp' = Some (bufs', inp1)"
    and b: "bufs = buf # bufs'"
    by (auto split: option.splits)
  from assms(2) b have u: "unterminated buf" and us: "list_all unterminated bufs'"
    by simp_all
  let ?w = "warnx ''parse error; truncated input'' w"
  have "main_loop dpy method inp False w = main_loop dpy method inp' True ?w"
    using main_loop_unterminated [OF f u, of dpy "method" False w] by simp
  also have "\<dots> = main_loop dpy method inp1 True ?w"
    by (rule skipping_run [OF r us])
  also have "\<dots> = Continue ?w"
    by (rule main_loop_end [OF assms(3)])
  finally show ?thesis
    by (simp add: warnx_def emit_def)
qed

subsection \<open>Whole lines\<close>

lemma fgets_take_line:
  "CHR 0x0A \<notin> set line \<Longrightarrow> length line < k \<Longrightarrow>
   fgets_take k (line @ CHR 0x0A # rest) = (line @ [CHR 0x0A], rest)"
proof (induction line arbitrary: k)
  case Nil
  then show ?case by (cases k) simp_all
next
  case (Cons c line)
  then show ?case by (cases k) auto
qed

lemma fgets_take_long:
  "CHR 0x0A \<notin> set body \<Longrightarrow> k \<le> length body \<Longrightarrow>
   fgets_take k (body @ rest) = (take k body, drop k body @ rest)"
proof (induction k arbitrary: body)
  case 0
  then show ?case by simp
next
  case (Suc k)
  then show ?case by (cases body) auto
qed

lemma plain_no_newline: "plain s \<Longrightarrow> CHR 0x0A \<notin> set s"
  by (auto simp: plain_def list_all_iff)

lemma plain_take: "plain s \<Longrightarrow> plain (take k s)"
  by (auto simp: plain_def list_all_iff dest: in_set_takeD)

lemma plain_drop: "plain s \<Longrightarrow> plain (drop k s)"
  by (auto simp: plain_def list_all_iff dest: in_set_dropD)

lemma fgets_line:
  assumes "plain line" and "length line < 63"
  shows "fgets 64 (line @ CHR 0x0A # rest, e) = Some (line @ [CHR 0x0A], (rest, e))"
  using assms fgets_take_line [of line 63 rest]
  by (simp add: fgets_def plain_no_newline)

lemma fgets_long:
  assumes "plain body" and "63 \<le> length body"
  shows "fgets 64 (body @ rest, e) = Some (take 63 body, (drop 63 body @ rest, e))"
proof -
  have "take 63 body \<noteq> []"
    using assms(2) by (cases body) auto
  then show ?thesis
    using assms fgets_take_long [of body 63 rest]
    by (simp add: fgets_def plain_no_newline)
qed

lemma strcspn_plain: "plain s \<Longrightarrow> strcspn (s @ t) [CHR 0x0D, CHR 0x0A] =
    length s + strcspn t [CHR 0x0D, CHR 0x0A]"
  by (induction s) (auto simp: plain_def strcspn_def)

lemma unterminated_plain: "plain s \<Longrightarrow> unterminated s"
  using strcspn_plain [of s "[]"]
  by (simp add: unterminated_def buf_at_def strcspn_def)

lemma terminated_line: "plain s \<Longrightarrow> \<not> unterminated (s @ [CHR 0x0A])"
  using strcspn_plain [of s "[CHR 0x0A]"]
  by (simp add: unterminated_def buf_at_def strcspn_def nth_append)

lemma line_of_buffer:
  "plain s \<Longrightarrow> take (strcspn (s @ [CHR 0x0A]) [CHR 0x0D, CHR 0x0A]) (s @ [CHR 0x0A]) = s"
  using strcspn_plain [of s "[CHR 0x0A]"]
  by (simp add: strcspn_def)

lemma rest_of_line_skipped:
  "plain body \<Longrightarrow>
   main_loop dpy method (body @ CHR 0x0A # rest, e) True w =
   main_loop dpy method (rest, e) False w"
proof (induction "length body" arbitrary: body rule: less_induct)
  case less
  show ?case
  proof (cases "length body < 63")
    case True
    show ?thesis
      using main_loop_skip [OF fgets_line [OF less.prems True] terminated_line [OF less.prems]]
      by simp
  next
    case False
    then have l: "63 \<le> length body" by simp
    have f: "fgets 64 (body @ CHR 0x0A # rest, e) =
               Some (take 63 body, (drop 63 body @ CHR 0x0A # rest, e))"
      by (rule fgets_long [OF less.prems l])
    have "main_loop dpy method (body @ CHR 0x0A # rest, e) True w =
          main_loop dpy method (drop 63 body @ CHR 0x0A # rest, e) True w"
      using main_loop_unterminated [OF f unterminated_plain [OF plain_take [OF less.prems]],
          of dpy "method" True w]
      by simp
    also have "\<dots> = main_loop dpy method (rest, e) False w"
      using l by (intro less.hyps plain_drop less.prems) simp
    finally show ?thesis .
  qed
qed

lemma over_long_line_skipped:
  assumes "plain body" and "63 \<le> length body"
  shows "main_loop dpy method (body @ CHR 0x0A # rest, e) False w =
         main_loop dpy method (rest, e) False
           (w\<lparr>trace := trace w @ [Warnx ''parse error; truncated input'']\<rparr>)"
proof -
  have f: "fgets 64 (body @ CHR 0x0A # rest, e) =
             Some (take 63 body, (drop 63 body @ CHR 0x0A # rest, e))"
    by (rule fgets_long [OF assms])
  have "main_loop dpy method (body @ CHR 0x0A # rest, e) False w =
        main_loop dpy method (drop 63 body @ CHR 0x0A # rest, e) True
          (warnx ''parse error; truncated input'' w)"
    using main_loop_unterminated [OF f unterminated_plain [OF plain_take [OF assms(1)]],
        of dpy "method" False w]
    by simp
  also have "\<dots> = main_loop dpy method (rest, e) False (warnx ''parse error; truncated input'' w)"
    by (rule rest_of_line_skipped [OF plain_drop [OF assms(1)]])
  finally show ?thesis
    by (simp add: warnx_def emit_def)
qed

lemma line_dispatched:
  assumes "plain line" and "length line < 63"
  shows "main_loop dpy method (line @ CHR 0x0A # rest, e) False w =
           (case dispatch dpy method line w of
              Continue w' \<Rightarrow> main_loop dpy method (rest, e) False w'
            | Fatal w' \<Rightarrow> Fatal w'
            | Blocked w' \<Rightarrow> Blocked w')"
proof -
  have "main_loop dpy method (line @ CHR 0x0A # rest, e) False w =
          (case dispatch dpy method
                  (take (strcspn (line @ [CHR 0x0A]) [CHR 0x0D, CHR 0x0A]) (line @ [CHR 0x0A])) w of
             Continue w' \<Rightarrow> main_loop dpy method (rest, e) False w'
           | Fatal w' \<Rightarrow> Fatal w'
           | Blocked w' \<Rightarrow> Blocked w')"
    by (rule main_loop_dispatch [OF fgets_line [OF assms] terminated_line [OF assms(1)]])
  then show ?thesis
    by (simp only: line_of_buffer [OF assms(1)])
qed

text \<open>
  An over-long line followed by a whole line: one warning, then the whole line is
  dispatched as usual.
\<close>

lemma over_long_then_line:
  assumes "plain body" and "63 \<le> length body" and "plain line" and "length line < 63"
  shows "main_loop dpy method (body @ CHR 0x0A # line @ CHR 0x0A # rest, e) False w =
           (case dispatch dpy method line
                   (w\<lparr>trace := trace w @ [Warnx ''parse error; truncated input'']\<rparr>) of
              Continue w' \<Rightarrow> main_loop dpy method (rest, e) False w'
            | Fatal w' \<Rightarrow> Fatal w'
            | Blocked w' \<Rightarrow> Blocked w')"
  by (simp only: over_long_line_skipped [OF assms(1,2)] line_dispatched [OF assms(3,4)])

subsection \<open>Diagnostics and the exit status\<close>

lemma select_call_warnx:
  "select_call method buf = Call_warnx msg \<Longrightarrow>
   msg = ''parse error; invalid or incomplete format'' \<or> msg = ''parse error; unknown control''"
  by (auto simp: select_call_def select_call_3_def split: if_splits option.splits)

lemma dispatch_continues:
  assumes "\<And>name w. \<exists>w'. xkblayout dpy name w = Continue w'"
  shows "\<exists>w'. dispatch dpy method buf w = Continue w'"
  using assms by (cases "select_call method buf") (simp_all add: dispatch_def)

lemma main_loop_continues:
  assumes ok: "\<And>name w. \<exists>w'. xkblayout dpy name w = Continue w'"
  shows "\<exists>w'. main_loop dpy method inp skip w = Continue w'"
proof (induction "length (fst inp)" arbitrary: inp skip w rule: less_induct)
  case less
  show ?case
  proof (cases "fgets 64 inp")
    case None
    then show ?thesis by (simp add: main_loop_end)
  next
    case (Some p)
    obtain buf inp' where f: "fgets 64 inp = Some (buf, inp')"
      using Some by (cases p) simp
    have s: "length (fst inp') < length (fst inp)"
      by (rule fgets_shorter [OF f])
    show ?thesis
    proof (cases "unterminated buf")
      case True
      show ?thesis
        using main_loop_unterminated [OF f True, of dpy "method" skip w] less.hyps [OF s]
        by simp
    next
      case False
      show ?thesis
      proof (cases skip)
        case True
        then show ?thesis
          using main_loop_skip [OF f False, of dpy "method" w] less.hyps [OF s] by simp
      next
        case nskip: False
        obtain w1 where
          d: "dispatch dpy method (take (strcspn buf [CHR 0x0D, CHR 0x0A]) buf) w = Continue w1"
          using dispatch_continues [OF ok] by blast
        show ?thesis
          using main_loop_dispatch [OF f False, of dpy "method" w] d nskip less.hyps [OF s]
          by simp
      qed
    qed
  qed
qed

lemma await_mapping_notify:
  "ev_type e = MappingNotify \<Longrightarrow> \<exists>w'. await_mapping (q @ [e]) w = Continue w'"
  by (induction q) simp_all

lemma test_display_layout_ok: "\<exists>w'. xkblayout test_display name w = Continue w'"
proof -
  have s: "system_call test_display s =
             (0, [\<lparr>ev_type = MappingNotify, ev_request = MappingKeyboard\<rparr>])" for s
    by (simp add: test_display_def)
  have a: "\<exists>w'. await_mapping (q @ [\<lparr>ev_type = MappingNotify, ev_request = MappingKeyboard\<rparr>]) w1 =
             Continue w'" for q w1
    by (rule await_mapping_notify) simp
  show ?thesis
  proof (cases "\<not> all_isalpha name \<or> 128 \<le> length (''setxkbmap '' @ name)")
    case True
    then show ?thesis by (auto simp: xkblayout_def)
  next
    case False
    let ?w4 = "emit (System (''setxkbmap '' @ name))
                 (drain_mapping test_display
                    (emit XSync
                       (emit (XGrabKey
                                (ucast (XKeysymToKeycode test_display (kbd_gen w)
                                          (XStringToKeysym test_display ''Super_L'')))
                                (RootWindow test_display)) w)))"
    obtain w5 where
      "await_mapping (queue ?w4 @ [\<lparr>ev_type = MappingNotify, ev_request = MappingKeyboard\<rparr>]) ?w4 =
         Continue w5"
      using a by blast
    with False show ?thesis
      by (simp add: xkblayout_def Let_def s)
  qed
qed

text \<open>
  Where layout switches neither fail nor block, main exits for every input: with status 0
  at end of file, with status 1 on a read error.
\<close>

lemma main_exit_when_layout_returns:
  assumes "\<And>name w. \<exists>w'. xkblayout dpy name w = Continue w'"
  shows "\<exists>w'. main dpy method (s, e) errno w =
               (if e = Eof then Exit 0 w' else Exit 1 (emit (Err ''reading stdin'') w'))"
proof -
  obtain w1 where "main_loop dpy method (s, e) False w = Continue w1"
    using main_loop_continues [OF assms] by blast
  then show ?thesis
    by (cases e) (auto simp: main_def ferror_def feof_def)
qed

subsection \<open>The other way out of the loop\<close>

text \<open>
  The loop is left through \<open>err\<close> only by \<open>xkblayout\<close>, when \<open>system\<close> returned -1.
\<close>

lemma await_mapping_not_fatal: "await_mapping q w \<noteq> Fatal w'"
  by (induction q) simp_all

lemma xkblayout_fatal:
  assumes "xkblayout dpy layout w = Fatal w'"
  shows "\<exists>w''. w' = emit (Err ''system'') w''"
proof -
  have a: "(case r of Continue w5 \<Rightarrow> Continue (drain_mapping dpy w5)
            | Fatal w5 \<Rightarrow> Fatal w5 | Blocked w5 \<Rightarrow> Blocked w5) = Fatal w' \<Longrightarrow> r = Fatal w'" for r
    by (cases r) simp_all
  from assms show ?thesis
    by (auto simp: xkblayout_def Let_def split: if_splits prod.splits
             dest!: a simp: await_mapping_not_fatal)
qed

lemma dispatch_fatal:
  assumes "dispatch dpy method buf w = Fatal w'"
  shows "\<exists>w''. w' = emit (Err ''system'') w''"
  using assms
  by (cases "select_call method buf") (auto simp: dispatch_def dest: xkblayout_fatal)

lemma main_loop_fatal:
  "main_loop dpy method inp skip w = Fatal w' \<Longrightarrow> \<exists>w''. w' = emit (Err ''system'') w''"
proof (induction "length (fst inp)" arbitrary: inp skip w rule: less_induct)
  case less
  show ?case
  proof (cases "fgets 64 inp")
    case None
    with less.prems show ?thesis by (simp add: main_loop_end)
  next
    case (Some p)
    obtain buf inp' where f: "fgets 64 inp = Some (buf, inp')"
      using Some by (cases p) simp
    have s: "length (fst inp') < length (fst inp)"
      by (rule fgets_shorter [OF f])
    show ?thesis
    proof (cases "unterminated buf")
      case True
      show ?thesis
        using main_loop_unterminated [OF f True, of dpy "method" skip w] less.hyps [OF s] less.prems
        by simp
    next
      case False
      show ?thesis
      proof (cases skip)
        case True
        then show ?thesis
          using main_loop_skip [OF f False, of dpy "method" w] less.hyps [OF s] less.prems
          by simp
      next
        case nskip: False
        show ?thesis
        proof (cases "dispatch dpy method (take (strcspn buf [CHR 0x0D, CHR 0x0A]) buf) w")
          case (Continue w1)
          then show ?thesis
            using main_loop_dispatch [OF f False, of dpy "method" w] nskip less.hyps [OF s]
              less.prems
            by simp
        next
          case (Fatal w1)
          then show ?thesis
            using main_loop_dispatch [OF f False, of dpy "method" w] nskip less.prems
              dispatch_fatal [OF Fatal]
            by simp
        next
          case (Blocked w1)
          then show ?thesis
            using main_loop_dispatch [OF f False, of dpy "method" w] nskip less.prems
            by simp
        qed
      qed
    qed
  qed
qed

text \<open>
  So at end of file main exits with status 0, unless \<open>system\<close> failed in a layout
  switch.
\<close>

lemma main_exit_at_eof:
  assumes "main dpy method (s, Eof) errno w = Exit code w'"
  shows "code = 0 \<or> (code = 1 \<and> (\<exists>w''. w' = emit (Err ''system'') w''))"
proof (cases "main_loop dpy method (s, Eof) False w")
  case (Continue w1)
  with assms show ?thesis
    by (simp add: main_def ferror_def feof_def)
next
  case (Fatal w1)
  with assms main_loop_fatal [OF Fatal] show ?thesis
    by (simp add: main_def)
next
  case (Blocked w1)
  with assms show ?thesis
    by (simp add: main_def)
qed

subsection \<open>The pointer stays on the screen\<close>

text \<open>
  On a screen whose size is not negative, a stored position that lies on the screen
  still does after any run of the loop, however the run ends.
\<close>

lemma pointer_in_bounds_xb: "xb w' = xb w \<Longrightarrow> pointer_in_bounds dpy w' = pointer_in_bounds dpy w"
  by (simp add: xb_def pointer_in_bounds_def)

lemma xmotion_in_bounds:
  "0 \<le>s DisplayWidth dpy \<Longrightarrow> 0 \<le>s DisplayHeight dpy \<Longrightarrow>
   pointer_in_bounds dpy (xmotion dpy dx dy w)"
  by (auto simp: pointer_in_bounds_def xmotion_def emit_def Let_def word_sle_eq word_sless_alt
           split: prod.splits if_splits)

lemma dispatch_in_bounds:
  assumes "0 \<le>s DisplayWidth dpy" and "0 \<le>s DisplayHeight dpy" and "pointer_in_bounds dpy w"
  shows "pointer_in_bounds dpy (world_of (dispatch dpy method buf w))"
proof (cases "is_xmotion (select_call method buf)")
  case True
  then obtain dx dy where "select_call method buf = Call_xmotion dx dy"
    by (cases "select_call method buf") simp_all
  then show ?thesis
    using xmotion_in_bounds [OF assms(1,2)] by (simp add: dispatch_def)
next
  case False
  then show ?thesis
    using assms(3) pointer_in_bounds_xb [OF xb_run_call [OF False]]
    by (simp add: dispatch_def)
qed

lemma main_loop_in_bounds:
  assumes "0 \<le>s DisplayWidth dpy" and "0 \<le>s DisplayHeight dpy"
  shows "pointer_in_bounds dpy w \<Longrightarrow>
         pointer_in_bounds dpy (world_of (main_loop dpy method inp skip w))"
proof (induction "length (fst inp)" arbitrary: inp skip w rule: less_induct)
  case less
  show ?case
  proof (cases "fgets 64 inp")
    case None
    with less.prems show ?thesis by (simp add: main_loop_end)
  next
    case (Some p)
    obtain buf inp' where f: "fgets 64 inp = Some (buf, inp')"
      using Some by (cases p) simp
    have s: "length (fst inp') < length (fst inp)"
      by (rule fgets_shorter [OF f])
    show ?thesis
    proof (cases "unterminated buf")
      case True
      have "pointer_in_bounds dpy (if skip then w else warnx ''parse error; truncated input'' w)"
        using less.prems pointer_in_bounds_xb [OF xb_warnx] by simp
      then show ?thesis
        using main_loop_unterminated [OF f True, of dpy "method" skip w] less.hyps [OF s]
        by simp
    next
      case False
      show ?thesis
      proof (cases skip)
        case True
        then show ?thesis
          using main_loop_skip [OF f False, of dpy "method" w] less.hyps [OF s] less.prems
          by simp
      next
        case nskip: False
        have d: "pointer_in_bounds dpy
                   (world_of (dispatch dpy method (take (strcspn buf [CHR 0x0D, CHR 0x0A]) buf) w))"
          by (rule dispatch_in_bounds [OF assms less.prems])
        show ?thesis
        proof (cases "dispatch dpy method (take (strcspn buf [CHR 0x0D, CHR 0x0A]) buf) w")
          case (Continue w1)
          then show ?thesis
            using main_loop_dispatch [OF f False, of dpy "method" w] nskip less.hyps [OF s] d
            by simp
        next
          case (Fatal w1)
          then show ?thesis
            using main_loop_dispatch [OF f False, of dpy "method" w] nskip d
            by simp
        next
          case (Blocked w1)
          then show ?thesis
            using main_loop_dispatch [OF f False, of dpy "method" w] nskip d
            by simp
        qed
      qed
    qed
  qed
qed

subsection \<open>Parse errors and the end of main\<close>

lemma select_call_invalid_format:
  "invalid_format line \<Longrightarrow>
   select_call method line = Call_warnx ''parse error; invalid or incomplete format''"
  by (auto simp: invalid_format_def layout_line_def key_line_2_def select_call_def
        select_call_3_def split: option.splits)

lemma select_call_unknown_control:
  assumes "unknown_control line"
  shows "select_call method line = Call_warnx ''parse error; unknown control''"
proof -
  from assms obtain c v1 v2 where
    s: "sscanf_c_d_d line = Some (c, v1, v2)" and c: "c \<notin> set ''mbBkK''"
    and l: "\<not> layout_line line"
    by (auto simp: unknown_control_def split: option.splits)
  have "sscanf_c_d line = Some (c, v1)"
    by (rule sscanf_c_d_d_prefix [OF s])
  with s c l show ?thesis
    by (auto simp: layout_line_def select_call_def select_call_3_def)
qed

lemma select_call_warnx_iff:
  "(select_call method line = Call_warnx msg) =
   (invalid_format line \<and> msg = ''parse error; invalid or incomplete format'' \<or>
    unknown_control line \<and> msg = ''parse error; unknown control'')"
proof
  assume a: "select_call method line = Call_warnx msg"
  show "invalid_format line \<and> msg = ''parse error; invalid or incomplete format'' \<or>
        unknown_control line \<and> msg = ''parse error; unknown control''"
  proof (cases "sscanf_c_d_d line")
    case None
    with a show ?thesis
      by (auto simp: invalid_format_def layout_line_def key_line_2_def select_call_def
            select_call_3_def split: if_splits option.splits)
  next
    case (Some t)
    obtain c v1 v2 where t: "t = (c, v1, v2)" by (cases t)
    have "sscanf_c_d line = Some (c, v1)"
      using Some t by (simp add: sscanf_c_d_d_prefix)
    with a Some t show ?thesis
      by (auto simp: unknown_control_def layout_line_def select_call_def
            select_call_3_def split: if_splits)
  qed
next
  assume "invalid_format line \<and> msg = ''parse error; invalid or incomplete format'' \<or>
          unknown_control line \<and> msg = ''parse error; unknown control''"
  then show "select_call method line = Call_warnx msg"
    by (auto simp: select_call_invalid_format select_call_unknown_control)
qed

lemma invalid_not_unknown: "invalid_format line \<Longrightarrow> \<not> unknown_control line"
  by (simp add: invalid_format_def unknown_control_def)

text \<open>A buffer whose line is a parse error adds its one warning, and the loop goes on.\<close>

lemma fgets_crlf_line:
  assumes "plain line" and "length line < 62"
  shows "fgets 64 (line @ CHR 0x0D # CHR 0x0A # rest, e) =
           Some (line @ [CHR 0x0D, CHR 0x0A], (rest, e))"
proof -
  have "CHR 0x0A \<notin> set (line @ [CHR 0x0D])"
    using plain_no_newline [OF assms(1)] by simp
  moreover have "length (line @ [CHR 0x0D]) < 63"
    using assms(2) by simp
  ultimately have "fgets_take 63 ((line @ [CHR 0x0D]) @ CHR 0x0A # rest) =
                     ((line @ [CHR 0x0D]) @ [CHR 0x0A], rest)"
    by (rule fgets_take_line)
  then show ?thesis
    by (simp add: fgets_def)
qed

lemma terminated_crlf_line: "plain s \<Longrightarrow> \<not> unterminated (s @ [CHR 0x0D, CHR 0x0A])"
  using strcspn_plain [of s "[CHR 0x0D, CHR 0x0A]"]
  by (simp add: unterminated_def buf_at_def strcspn_def nth_append)

lemma line_of_lf: "plain s \<Longrightarrow> line_of (s @ [CHR 0x0A]) = s"
  using strcspn_plain [of s "[CHR 0x0A]"]
  by (simp add: line_of_def strcspn_def)

lemma line_of_crlf: "plain s \<Longrightarrow> line_of (s @ [CHR 0x0D, CHR 0x0A]) = s"
  using strcspn_plain [of s "[CHR 0x0D, CHR 0x0A]"]
  by (simp add: line_of_def strcspn_def)

lemma buffer_dispatched:
  assumes "fgets 64 inp = Some (buf, inp')" and "\<not> unterminated buf"
    and "select_call method (line_of buf) = Call_warnx msg"
  shows "main_loop dpy method inp False w =
           main_loop dpy method inp' False (w\<lparr>trace := trace w @ [Warnx msg]\<rparr>)"
  using main_loop_dispatch [OF assms(1,2), of dpy "method" w] assms(3)
  by (simp add: dispatch_def line_of_def warnx_def emit_def)

lemma parse_error_lf_line:
  assumes "plain line" and "length line < 63"
    and "select_call method line = Call_warnx msg"
  shows "main_loop dpy method (line @ CHR 0x0A # rest, e) False w =
           main_loop dpy method (rest, e) False (w\<lparr>trace := trace w @ [Warnx msg]\<rparr>)"
proof (rule buffer_dispatched)
  show "fgets 64 (line @ CHR 0x0A # rest, e) = Some (line @ [CHR 0x0A], (rest, e))"
    by (rule fgets_line [OF assms(1,2)])
  show "\<not> unterminated (line @ [CHR 0x0A])"
    by (rule terminated_line [OF assms(1)])
  show "select_call method (line_of (line @ [CHR 0x0A])) = Call_warnx msg"
    using assms(3) by (simp add: line_of_lf [OF assms(1)])
qed

lemma parse_error_crlf_line:
  assumes "plain line" and "length line < 62"
    and "select_call method line = Call_warnx msg"
  shows "main_loop dpy method (line @ CHR 0x0D # CHR 0x0A # rest, e) False w =
           main_loop dpy method (rest, e) False (w\<lparr>trace := trace w @ [Warnx msg]\<rparr>)"
proof (rule buffer_dispatched)
  show "fgets 64 (line @ CHR 0x0D # CHR 0x0A # rest, e) =
          Some (line @ [CHR 0x0D, CHR 0x0A], (rest, e))"
    by (rule fgets_crlf_line [OF assms(1,2)])
  show "\<not> unterminated (line @ [CHR 0x0D, CHR 0x0A])"
    by (rule terminated_crlf_line [OF assms(1)])
  show "select_call method (line_of (line @ [CHR 0x0D, CHR 0x0A])) = Call_warnx msg"
    using assms(3) by (simp add: line_of_crlf [OF assms(1)])
qed

text \<open>
  The loop ends before the end of the input only in \<open>xkblayout\<close>: through \<open>err\<close> right
  after a \<open>system\<close> that returned -1, or waiting for an event right after \<open>system\<close>.
\<close>

lemma await_mapping_blocked: "await_mapping q w = Blocked w' \<Longrightarrow> w' = w\<lparr>queue := []\<rparr>"
  by (induction q) (simp_all split: if_splits)

lemma xkblayout_fatal_system:
  assumes "xkblayout dpy layout w = Fatal w'"
  shows "\<exists>w3. w' = emit (Err ''system'') (emit (System (''setxkbmap '' @ layout)) w3) \<and>
              fst (system_call dpy (''setxkbmap '' @ layout)) = - 1"
proof -
  have a: "(case r of Continue w5 \<Rightarrow> Continue (drain_mapping dpy w5)
            | Fatal w5 \<Rightarrow> Fatal w5 | Blocked w5 \<Rightarrow> Blocked w5) = Fatal w' \<Longrightarrow> r = Fatal w'" for r
    by (cases r) simp_all
  from assms show ?thesis
    by (auto simp: xkblayout_def Let_def split: if_splits prod.splits
             dest!: a simp: await_mapping_not_fatal)
qed

lemma xkblayout_blocked:
  assumes "xkblayout dpy layout w = Blocked w'"
  shows "\<exists>w3. w' = (emit (System (''setxkbmap '' @ layout)) w3)\<lparr>queue := []\<rparr>"
proof -
  have a: "(case r of Continue w5 \<Rightarrow> Continue (drain_mapping dpy w5)
            | Fatal w5 \<Rightarrow> Fatal w5 | Blocked w5 \<Rightarrow> Blocked w5) = Blocked w' \<Longrightarrow> r = Blocked w'" for r
    by (cases r) simp_all
  from assms show ?thesis
    by (auto simp: xkblayout_def Let_def split: if_splits prod.splits
             dest!: a await_mapping_blocked)
qed

lemma dispatch_fatal_system:
  assumes "dispatch dpy method buf w = Fatal w'"
  shows "\<exists>layout w3. w' = emit (Err ''system'') (emit (System (''setxkbmap '' @ layout)) w3) \<and>
              fst (system_call dpy (''setxkbmap '' @ layout)) = - 1"
proof (cases "select_call method buf")
  case (Call_xkblayout layout)
  with assms have "xkblayout dpy layout w = Fatal w'"
    by (simp add: dispatch_def)
  from xkblayout_fatal_system [OF this] show ?thesis by blast
qed (insert assms, simp_all add: dispatch_def)

lemma dispatch_blocked:
  assumes "dispatch dpy method buf w = Blocked w'"
  shows "\<exists>layout w3. w' = (emit (System (''setxkbmap '' @ layout)) w3)\<lparr>queue := []\<rparr>"
proof (cases "select_call method buf")
  case (Call_xkblayout layout)
  with assms have "xkblayout dpy layout w = Blocked w'"
    by (simp add: dispatch_def)
  from xkblayout_blocked [OF this] show ?thesis by blast
qed (insert assms, simp_all add: dispatch_def)

lemma main_loop_result:
  "(\<exists>w'. main_loop dpy method inp skip w = Continue w') \<or>
   (\<exists>buf w1. dispatch dpy method buf w1 = main_loop dpy method inp skip w)"
proof (induction "length (fst inp)" arbitrary: inp skip w rule: less_induct)
  case less
  show ?case
  proof (cases "fgets 64 inp")
    case None
    then show ?thesis by (simp add: main_loop_end)
  next
    case (Some p)
    obtain buf inp' where f: "fgets 64 inp = Some (buf, inp')"
      using Some by (cases p) simp
    have s: "length (fst inp') < length (fst inp)"
      by (rule fgets_shorter [OF f])
    show ?thesis
    proof (cases "unterminated buf")
      case True
      show ?thesis
        using main_loop_unterminated [OF f True, of dpy "method" skip w] less.hyps [OF s]
        by simp
    next
      case False
      show ?thesis
      proof (cases skip)
        case True
        then show ?thesis
          using main_loop_skip [OF f False, of dpy "method" w] less.hyps [OF s] by simp
      next
        case nskip: False
        show ?thesis
        proof (cases "dispatch dpy method (take (strcspn buf [CHR 0x0D, CHR 0x0A]) buf) w")
          case (Continue w1)
          then show ?thesis
            using main_loop_dispatch [OF f False, of dpy "method" w] nskip less.hyps [OF s]
            by simp
        next
          case (Fatal w1)
          then have "main_loop dpy method inp skip w =
                     dispatch dpy method (take (strcspn buf [CHR 0x0D, CHR 0x0A]) buf) w"
            using main_loop_dispatch [OF f False, of dpy "method" w] nskip by simp
          then show ?thesis by metis
        next
          case (Blocked w1)
          then have "main_loop dpy method inp skip w =
                     dispatch dpy method (take (strcspn buf [CHR 0x0D, CHR 0x0A]) buf) w"
            using main_loop_dispatch [OF f False, of dpy "method" w] nskip by simp
          then show ?thesis by metis
        qed
      qed
    qed
  qed
qed

lemma main_loop_fatal_system:
  assumes "main_loop dpy method inp skip w = Fatal w'"
  shows "\<exists>layout w3. w' = emit (Err ''system'') (emit (System (''setxkbmap '' @ layout)) w3) \<and>
              fst (system_call dpy (''setxkbmap '' @ layout)) = - 1"
proof -
  from main_loop_result [of dpy "method" inp skip w] assms
  obtain buf w1 where "dispatch dpy method buf w1 = Fatal w'"
    by auto
  then show ?thesis by (rule dispatch_fatal_system)
qed

lemma main_loop_blocked:
  assumes "main_loop dpy method inp skip w = Blocked w'"
  shows "\<exists>layout w3. w' = (emit (System (''setxkbmap '' @ layout)) w3)\<lparr>queue := []\<rparr>"
proof -
  from main_loop_result [of dpy "method" inp skip w] assms
  obtain buf w1 where "dispatch dpy method buf w1 = Blocked w'"
    by auto
  then show ?thesis by (rule dispatch_blocked)
qed

text \<open>
  C7, as the claim states it, fails: on the one line \<open>l us\<close> and a clean end of file, main
  exits with status 1 when \<open>system\<close> returns -1, though no read failed, and it never
  exits when no \<open>MappingNotify\<close> event follows the layout switch.
\<close>

theorem layout_switch_ends_main:
  "main failing_display INJECT_METHOD_XTEST (''l us'' @ [CHR 0x0A], Eof) 0 world0 =
     Exit 1 (world0\<lparr>trace := [XGrabKey 0 1, XSync, System ''setxkbmap us'', Err ''system'']\<rparr>) \<and>
   main blocking_display INJECT_METHOD_XTEST (''l us'' @ [CHR 0x0A], Eof) 0 world0 =
     Hang (world0\<lparr>trace := [XGrabKey 0 1, XSync, System ''setxkbmap us'']\<rparr>)"
  by code_simp

text \<open>
  C7, amended. A buffer with a line end whose line has an invalid format or an unknown
  control adds exactly one warning, the one of its kind, and the loop goes on with the
  next buffer. When the loop reaches the end of the input, main exits with status 0 at end
  of file and with status 1, after reporting it, on a read error. Otherwise the run ends
  in a layout switch: with status 1 after \<open>err(1, "system")\<close>, when \<open>system\<close> returned -1,
  or never, waiting for an event after \<open>system\<close>.
\<close>

theorem parse_errors_and_exit_status:
  assumes "fgets 64 inp = Some (buf, inp')" and "\<not> unterminated buf"
    and "invalid_format (line_of buf) \<or> unknown_control (line_of buf)"
  shows "main_loop dpy meth inp False w =
           main_loop dpy meth inp' False
             (w\<lparr>trace := trace w @
                  [Warnx (if invalid_format (line_of buf)
                          then ''parse error; invalid or incomplete format''
                          else ''parse error; unknown control'')]\<rparr>) \<and>
         (case main_loop dpy meth (s, e) False w0 of
            Continue w1 \<Rightarrow>
              main dpy meth (s, e) errno w0 =
                (if e = Eof then Exit 0 w1 else Exit 1 (emit (Err ''reading stdin'') w1))
          | Fatal w1 \<Rightarrow>
              main dpy meth (s, e) errno w0 = Exit 1 w1 \<and>
              (\<exists>layout w3.
                 w1 = emit (Err ''system'') (emit (System (''setxkbmap '' @ layout)) w3) \<and>
                 fst (system_call dpy (''setxkbmap '' @ layout)) = - 1)
          | Blocked w1 \<Rightarrow>
              main dpy meth (s, e) errno w0 = Hang w1 \<and>
              (\<exists>layout w3. w1 = (emit (System (''setxkbmap '' @ layout)) w3)\<lparr>queue := []\<rparr>))"
proof -
  let ?msg = "if invalid_format (line_of buf) then ''parse error; invalid or incomplete format''
              else ''parse error; unknown control''"
  have c: "select_call meth (line_of buf) = Call_warnx ?msg"
    using assms(3) by (auto simp: select_call_invalid_format select_call_unknown_control)
  have a: "main_loop dpy meth inp False w =
           main_loop dpy meth inp' False (w\<lparr>trace := trace w @ [Warnx ?msg]\<rparr>)"
    using main_loop_dispatch [OF assms(1,2), of dpy meth w] c
    by (simp add: dispatch_def line_of_def warnx_def emit_def)
  have b: ?thesis if "main_loop dpy meth (s, e) False w0 = Continue w1" for w1
    using that a by (cases e) (simp_all add: main_def ferror_def feof_def)
  have f: ?thesis if "main_loop dpy meth (s, e) False w0 = Fatal w1" for w1
    using that a main_loop_fatal_system [OF that] by (simp add: main_def)
  have h: ?thesis if "main_loop dpy meth (s, e) False w0 = Blocked w1" for w1
    using that a main_loop_blocked [OF that] by (simp add: main_def)
  show ?thesis
    using b f h by (cases "main_loop dpy meth (s, e) False w0") blast+
qed

theorem parse_errors_and_exit_status_witness:
  "fgets 64 (''x 1 2'' @ [CHR 0x0D, CHR 0x0A] @ ''m 5'' @ [CHR 0x0A], Eof) =
     Some (''x 1 2'' @ [CHR 0x0D, CHR 0x0A], (''m 5'' @ [CHR 0x0A], Eof)) \<and>
   \<not> unterminated (''x 1 2'' @ [CHR 0x0D, CHR 0x0A]) \<and>
   unknown_control (line_of (''x 1 2'' @ [CHR 0x0D, CHR 0x0A])) \<and>
   main_loop test_display INJECT_METHOD_XTEST
     (''x 1 2'' @ [CHR 0x0D, CHR 0x0A] @ ''m 5'' @ [CHR 0x0A], Eof) False world0 =
   main_loop test_display INJECT_METHOD_XTEST (''m 5'' @ [CHR 0x0A], Eof) False
     (world0\<lparr>trace := [Warnx ''parse error; unknown control'']\<rparr>) \<and>
   main test_display INJECT_METHOD_XTEST
     (''x 1 2'' @ [CHR 0x0D, CHR 0x0A] @ ''m 5'' @ [CHR 0x0A], Eof) 0 world0 =
     Exit 0 (world0\<lparr>trace := [Warnx ''parse error; unknown control'',
                                 Warnx ''parse error; invalid or incomplete format'']\<rparr>)"
proof -
  let ?inp = "(''x 1 2'' @ [CHR 0x0D, CHR 0x0A] @ ''m 5'' @ [CHR 0x0A], Eof)"
  have a: "fgets 64 ?inp = Some (''x 1 2'' @ [CHR 0x0D, CHR 0x0A], (''m 5'' @ [CHR 0x0A], Eof))"
    by code_simp
  have b: "\<not> unterminated (''x 1 2'' @ [CHR 0x0D, CHR 0x0A])"
    by code_simp
  have c: "unknown_control (line_of (''x 1 2'' @ [CHR 0x0D, CHR 0x0A]))"
    by code_simp
  have d: "\<not> invalid_format (line_of (''x 1 2'' @ [CHR 0x0D, CHR 0x0A]))"
    by code_simp
  have l: "main_loop test_display INJECT_METHOD_XTEST ?inp False world0 =
           Continue (world0\<lparr>trace := [Warnx ''parse error; unknown control'',
                                 Warnx ''parse error; invalid or incomplete format'']\<rparr>)"
    by code_simp
  have t: "invalid_format (line_of (''x 1 2'' @ [CHR 0x0D, CHR 0x0A])) \<or>
           unknown_control (line_of (''x 1 2'' @ [CHR 0x0D, CHR 0x0A]))"
    using c by simp
  show ?thesis
    using a b c d l trace_world0
      parse_errors_and_exit_status [OF a b t, where dpy = test_display
        and meth = INJECT_METHOD_XTEST and w = world0 and s = "''x 1 2'' @ [CHR 0x0D, CHR 0x0A] @ ''m 5'' @ [CHR 0x0A]" and e = Eof and ?w0.0 = world0 and errno = 0]
    by simp
qed

end
